theory Spec2Isabelle
  imports Complex_Main "HOL-Library.Log_Nat" "HOL-Library.Word"
begin

section \<open>Python numbers\<close>

text \<open>
  The program is Python: \<^verbatim>\<open>int\<close> is unbounded and is modelled by \<open>int\<close>; \<^verbatim>\<open>float\<close> is an
  IEEE-754 binary64 number.  A finite float is modelled by the rational number it denotes, and
  every float operation by the exact operation followed by \<open>fl\<close>, rounding to 53 significant bits,
  ties to even.  The exponent range is not bounded in the model: overflow to infinity and
  subnormal numbers do not arise for pixel sizes and landmark coordinates.
\<close>

datatype py_error = ZeroDivisionError | IndexError | ValueError | CvError

text \<open>\<open>ilog2 x\<close> is the binary exponent of a positive rational: \<open>2 powi ilog2 x \<le> x < 2 powi (ilog2 x + 1)\<close>.\<close>

definition ilog2 :: "rat \<Rightarrow> int" where
  "ilog2 x = (if 1 \<le> x then bitlen \<lfloor>x\<rfloor> - 1 else - bitlen (\<lceil>1 / x\<rceil> - 1))"

text \<open>Rounding to the nearest integer, ties to the even one: Python's \<^verbatim>\<open>round(x)\<close> on a float.\<close>

definition round_half_even :: "rat \<Rightarrow> int" where
  "round_half_even x =
     (let f = \<lfloor>x\<rfloor>; d = x - of_int f
      in if d < 1 / 2 then f else if 1 / 2 < d then f + 1 else if even f then f else f + 1)"

definition fl :: "rat \<Rightarrow> rat" where
  "fl x = (if x = 0 then 0
           else let u = 2 powi (ilog2 \<bar>x\<bar> - 52) in of_int (round_half_even (x / u)) * u)"

text \<open>\<^verbatim>\<open>int(x)\<close> on a float truncates toward zero.\<close>

definition py_int :: "rat \<Rightarrow> int" where
  "py_int x = (if 0 \<le> x then \<lfloor>x\<rfloor> else \<lceil>x\<rceil>)"

text \<open>\<^verbatim>\<open>a / b\<close> on two ints: the correctly rounded quotient, or ZeroDivisionError.\<close>

definition int_truediv :: "int \<Rightarrow> int \<Rightarrow> py_error + rat" where
  "int_truediv a b = (if b = 0 then Inl ZeroDivisionError else Inr (fl (of_int a / of_int b)))"

text \<open>Mixed arithmetic converts the int operand to a float first.\<close>

definition float_of_int :: "int \<Rightarrow> rat" where
  "float_of_int n = fl (of_int n)"

definition fadd :: "rat \<Rightarrow> rat \<Rightarrow> rat" where
  "fadd a b = fl (a + b)"

definition fmul_int :: "rat \<Rightarrow> int \<Rightarrow> rat" where
  "fmul_int a n = fl (a * float_of_int n)"

definition imul_f :: "int \<Rightarrow> rat \<Rightarrow> rat" where
  "imul_f n a = fl (float_of_int n * a)"

definition fsub_int :: "rat \<Rightarrow> int \<Rightarrow> rat" where
  "fsub_int a n = fl (a - float_of_int n)"

text \<open>Division of a float by a non-zero int literal.\<close>

definition fdiv_lit :: "rat \<Rightarrow> int \<Rightarrow> rat" where
  "fdiv_lit a n = fl (a / float_of_int n)"

section \<open>Configuration\<close>

definition OUTPUT_SIZE_PX :: int where "OUTPUT_SIZE_PX = 600"
definition DPI :: int where "DPI = 300"
definition HEAD_MIN_MM :: int where "HEAD_MIN_MM = 25"
definition HEAD_MAX_MM :: int where "HEAD_MAX_MM = 35"
definition EYE_MIN_MM :: int where "EYE_MIN_MM = 28"
definition EYE_MAX_MM :: int where "EYE_MAX_MM = 34"

section \<open>Face landmark helpers\<close>

text \<open>The source's variable \<^verbatim>\<open>top\<close> is written \<open>top_px\<close>.\<close>

record landmark =
  lm_x :: rat
  lm_y :: rat

text \<open>\<^verbatim>\<open>landmarks[i]\<close> for a constant index \<open>i \<ge> 0\<close>: IndexError beyond the end.\<close>

definition lm_at :: "landmark list \<Rightarrow> nat \<Rightarrow> py_error + landmark" where
  "lm_at landmarks i = (if i < length landmarks then Inr (landmarks ! i) else Inl IndexError)"

definition get_head_and_eye_positions ::
  "landmark list \<Rightarrow> int \<Rightarrow> int \<Rightarrow> py_error + (int \<times> int \<times> int \<times> int \<times> int)" where
  "get_head_and_eye_positions landmarks img_w img_h =
     (case lm_at landmarks 10 of Inl e \<Rightarrow> Inl e | Inr l10 \<Rightarrow>
      let top_px = py_int (fmul_int (lm_y l10) img_h) in
      case lm_at landmarks 152 of Inl e \<Rightarrow> Inl e | Inr l152 \<Rightarrow>
      let chin = py_int (fmul_int (lm_y l152) img_h) in
      case lm_at landmarks 33 of Inl e \<Rightarrow> Inl e | Inr left_eye \<Rightarrow>
      case lm_at landmarks 263 of Inl e \<Rightarrow> Inl e | Inr right_eye \<Rightarrow>
      let eye_avg_y = py_int (fmul_int (fdiv_lit (fadd (lm_y left_eye) (lm_y right_eye)) 2) img_h);
          center_x = py_int (fmul_int (fdiv_lit (fadd (lm_x left_eye) (lm_x right_eye)) 2) img_w)
      in case int_truediv (top_px + chin) 2 of Inl e \<Rightarrow> Inl e | Inr half \<Rightarrow>
         Inr (top_px, chin, eye_avg_y, center_x, py_int half))"

section \<open>Conversion between px and mm\<close>

text \<open>\<^verbatim>\<open>px_to_mm\<close> is only called on ints.\<close>

definition px_to_mm :: "int \<Rightarrow> rat" where
  "px_to_mm px = fmul_int (fl (of_int px / of_int OUTPUT_SIZE_PX)) 51"

text \<open>
  \<^verbatim>\<open>mm_to_px\<close> on a float.  The program also calls it on the ints 26 and 31; they are floats
  exactly, and int/int division is correctly rounded, so \<open>mm_to_px (of_int n)\<close> is that call.
\<close>

definition mm_to_px :: "rat \<Rightarrow> int" where
  "mm_to_px mm = round_half_even (fmul_int (fdiv_lit mm 51) OUTPUT_SIZE_PX)"

section \<open>Raster images\<close>

text \<open>
  A PIL image or a numpy pixel array: its size and the pixel at column \<open>x\<close>, row \<open>y\<close>.
  Only the pixels inside the size are part of the image.
\<close>

record 'p image =
  width :: int
  height :: int
  pix :: "int \<Rightarrow> int \<Rightarrow> 'p"

type_synonym rgb = "8 word \<times> 8 word \<times> 8 word"

definition white :: rgb where "white = (255, 255, 255)"
definition black :: rgb where "black = (0, 0, 0)"
definition red :: rgb where "red = (255, 0, 0)"
definition blue :: rgb where "blue = (0, 0, 255)"

definition blank :: "int \<Rightarrow> int \<Rightarrow> 'p \<Rightarrow> 'p image" where
  "blank w h c = \<lparr>width = w, height = h, pix = (\<lambda>x y. c)\<rparr>"

text \<open>\<^verbatim>\<open>Image.new(mode, (w, h), color)\<close>: PIL raises ValueError on a negative size.\<close>

definition Image_new :: "int \<times> int \<Rightarrow> 'p \<Rightarrow> py_error + 'p image" where
  "Image_new sz c =
     (if fst sz < 0 \<or> snd sz < 0 then Inl ValueError else Inr (blank (fst sz) (snd sz) c))"

text \<open>
  \<^verbatim>\<open>canvas.paste(im, pos)\<close>: the box is \<open>pos\<close> extended by the size of \<open>im\<close>; pixels of the box
  that fall outside the canvas are dropped.  The canvas is updated in place; the model returns it.
\<close>

definition paste_box :: "'p image \<Rightarrow> int \<times> int \<Rightarrow> int \<times> int \<times> int \<times> int" where
  "paste_box im pos = (fst pos, snd pos, fst pos + width im, snd pos + height im)"

definition in_box :: "int \<times> int \<times> int \<times> int \<Rightarrow> int \<Rightarrow> int \<Rightarrow> bool" where
  "in_box b x y = (case b of (x0, y0, x1, y1) \<Rightarrow> x0 \<le> x \<and> x < x1 \<and> y0 \<le> y \<and> y < y1)"

definition paste :: "'p image \<Rightarrow> 'p image \<Rightarrow> int \<times> int \<Rightarrow> 'p image" where
  "paste canvas im pos =
     canvas\<lparr>pix := (\<lambda>x y. if in_box (paste_box im pos) x y
                           then pix im (x - fst pos) (y - snd pos) else pix canvas x y)\<rparr>"

text \<open>
  \<^verbatim>\<open>image.resize(size)\<close>: PIL returns a copy when the image already has that size, and
  resamples otherwise; the resampling filter is a parameter.
\<close>

definition pil_resize :: "('p image \<Rightarrow> int \<times> int \<Rightarrow> 'p image) \<Rightarrow> 'p image \<Rightarrow> int \<times> int \<Rightarrow> 'p image" where
  "pil_resize resample im sz = (if (width im, height im) = sz then im else resample im sz)"

text \<open>A numpy slice \<^verbatim>\<open>[i:j]\<close> on an axis of length \<open>n\<close>: first index and number of indices.\<close>

definition np_index :: "int \<Rightarrow> int \<Rightarrow> int" where
  "np_index n k = (if k < 0 then max 0 (k + n) else min k n)"

definition np_slice :: "int \<Rightarrow> int \<Rightarrow> int \<Rightarrow> int \<times> int" where
  "np_slice n i j = (np_index n i, max 0 (np_index n j - np_index n i))"

text \<open>\<^verbatim>\<open>a[r0:r1, c0:c1]\<close>\<close>

definition np_crop :: "'p image \<Rightarrow> int \<times> int \<Rightarrow> int \<times> int \<Rightarrow> 'p image" where
  "np_crop a rows cols =
     (let (r0, nr) = np_slice (height a) (fst rows) (snd rows);
          (c0, nc) = np_slice (width a) (fst cols) (snd cols)
      in \<lparr>width = nc, height = nr, pix = (\<lambda>x y. pix a (x + c0) (y + r0))\<rparr>)"

text \<open>\<^verbatim>\<open>a[i:, :]\<close>\<close>

definition np_rows_from :: "'p image \<Rightarrow> int \<Rightarrow> 'p image" where
  "np_rows_from a i = np_crop a (i, height a) (0, width a)"

section \<open>Main photo processing\<close>

definition NO_FACE_MSG :: string where
  "NO_FACE_MSG = ''No face detected. Please use a clear, front-facing passport-style photo!''"

definition desired_eye_y :: int where
  "desired_eye_y = OUTPUT_SIZE_PX - mm_to_px (of_int ((EYE_MIN_MM + EYE_MAX_MM) div 2))"

text \<open>\<^verbatim>\<open>max(0, min(crop, n - OUTPUT_SIZE_PX))\<close>\<close>

definition clamp_crop :: "int \<Rightarrow> int \<Rightarrow> int" where
  "clamp_crop crop n = max 0 (min crop (n - OUTPUT_SIZE_PX))"

text \<open>The crop offsets \<open>(crop_top, crop_left)\<close> after clamping.\<close>

definition crop_offsets :: "int \<Rightarrow> int \<Rightarrow> rat \<Rightarrow> rat \<Rightarrow> int \<times> int" where
  "crop_offsets new_w new_h eye_y_scaled cx_scaled =
     (let crop_top = py_int (fsub_int eye_y_scaled desired_eye_y);
          crop_left = py_int (fsub_int cx_scaled (OUTPUT_SIZE_PX div 2))
      in (clamp_crop crop_top new_h, clamp_crop crop_left new_w))"

text \<open>Cropping the resized array, padding with white, and pasting onto the final image.\<close>

definition crop_and_pad :: "rgb image \<Rightarrow> int \<Rightarrow> int \<Rightarrow> rat \<Rightarrow> rat \<Rightarrow> rgb image" where
  "crop_and_pad scaled new_w new_h eye_y_scaled cx_scaled =
     (let (crop_top, crop_left) = crop_offsets new_w new_h eye_y_scaled cx_scaled;
          cropped = np_crop scaled (crop_top, crop_top + OUTPUT_SIZE_PX)
                                   (crop_left, crop_left + OUTPUT_SIZE_PX);
          cropped = (if height cropped < OUTPUT_SIZE_PX \<or> width cropped < OUTPUT_SIZE_PX
                     then paste (blank OUTPUT_SIZE_PX OUTPUT_SIZE_PX white) cropped (0, 0)
                     else cropped);
          final_img = blank OUTPUT_SIZE_PX OUTPUT_SIZE_PX white
      in paste final_img cropped (0, 0))"

text \<open>
  \<open>process_photo\<close>.  Three library calls are parameters: \<open>flatten\<close> is the conversion to RGBA,
  the compositing over white and the conversion to RGB; \<open>detect\<close> is
  \<^verbatim>\<open>detect_face_landmarks\<close>, the landmark model; \<open>cv2_resize\<close> is \<^verbatim>\<open>cv2.resize\<close>, which raises on an
  empty size.  The result is the returned pair, or the exception that leaves the function.
\<close>

definition process_photo ::
  "('raw \<Rightarrow> rgb image) \<Rightarrow> (rgb image \<Rightarrow> landmark list option) \<Rightarrow>
   (rgb image \<Rightarrow> int \<times> int \<Rightarrow> py_error + rgb image) \<Rightarrow> 'raw \<Rightarrow>
   py_error + (rgb image option \<times> string)" where
  "process_photo flatten detect cv2_resize img =
     (let image_np = flatten img;
          img_h = height image_np;
          img_w = width image_np
      in case detect image_np of
           None \<Rightarrow> Inr (None, NO_FACE_MSG)
         | Some landmarks \<Rightarrow>
             if landmarks = [] then Inr (None, NO_FACE_MSG)
             else case get_head_and_eye_positions landmarks img_w img_h of
               Inl e \<Rightarrow> Inl e
             | Inr (top_px, chin, eye_y, cx, cy) \<Rightarrow>
                 let head_px = chin - top_px;
                     head_mm = px_to_mm head_px;
                     target_head_mm = 26;
                     target_head_px = mm_to_px (of_int target_head_mm)
                 in case int_truediv target_head_px head_px of
                      Inl e \<Rightarrow> Inl e
                    | Inr scale \<Rightarrow>
                        let new_w = py_int (imul_f img_w scale);
                            new_h = py_int (imul_f img_h scale)
                        in case cv2_resize image_np (new_w, new_h) of
                             Inl e \<Rightarrow> Inl e
                           | Inr scaled \<Rightarrow>
                               let eye_y_scaled = imul_f eye_y scale;
                                   cx_scaled = imul_f cx scale
                               in Inr (Some (crop_and_pad scaled new_w new_h eye_y_scaled cx_scaled),
                                       ''''))"

section \<open>Measurement overlay\<close>

text \<open>
  PIL images are mutable objects.  Where the program shares or copies them, the model keeps a
  heap: the images by reference, and the next free reference.
\<close>

record heap =
  objs :: "nat \<Rightarrow> rgb image"
  next_ref :: nat

text \<open>\<^verbatim>\<open>im.copy()\<close> allocates a new image with the same pixels.\<close>

definition pil_copy :: "heap \<Rightarrow> nat \<Rightarrow> heap \<times> nat" where
  "pil_copy h r =
     (h\<lparr>objs := (objs h)(next_ref h := objs h r), next_ref := Suc (next_ref h)\<rparr>, next_ref h)"

text \<open>A drawing call on the \<^verbatim>\<open>ImageDraw.Draw(image)\<close> object writes into \<open>image\<close> itself.\<close>

definition draw_on :: "heap \<Rightarrow> nat \<Rightarrow> (rgb image \<Rightarrow> rgb image) \<Rightarrow> heap" where
  "draw_on h r f = h\<lparr>objs := (objs h)(r := f (objs h r))\<rparr>"

text \<open>
  \<open>add_measurement_overlay\<close>.  The rasterisers of PIL are parameters: \<open>draw_line\<close> is
  \<^verbatim>\<open>draw.line(points, fill, width)\<close>, \<open>draw_text\<close> is \<^verbatim>\<open>draw.text(pos, text, fill, font)\<close> with the
  default font, and \<open>fmt1\<close> formats a float with one decimal.  The result is the heap when the
  function is left, and the returned reference or the exception.
\<close>

definition add_measurement_overlay ::
  "(rgb image \<Rightarrow> (int \<times> int) list \<Rightarrow> rgb \<Rightarrow> int \<Rightarrow> rgb image) \<Rightarrow>
   (rgb image \<Rightarrow> int \<times> int \<Rightarrow> string \<Rightarrow> rgb \<Rightarrow> rgb image) \<Rightarrow> (rat \<Rightarrow> string) \<Rightarrow>
   heap \<Rightarrow> nat \<Rightarrow> landmark list \<Rightarrow> int \<Rightarrow> int \<Rightarrow> heap \<times> (py_error + nat)" where
  "add_measurement_overlay draw_line draw_text fmt1 h img landmarks img_h img_w =
     (case lm_at landmarks 10 of Inl e \<Rightarrow> (h, Inl e) | Inr l10 \<Rightarrow>
      let top_px = py_int (fmul_int (lm_y l10) img_h) in
      case lm_at landmarks 152 of Inl e \<Rightarrow> (h, Inl e) | Inr l152 \<Rightarrow>
      let chin = py_int (fmul_int (lm_y l152) img_h);
          h = draw_on h img (\<lambda>im. draw_line im
                [(img_w div 2 - 60, top_px), (img_w div 2 + 60, top_px)] red 2);
          h = draw_on h img (\<lambda>im. draw_line im
                [(img_w div 2 - 60, chin), (img_w div 2 + 60, chin)] red 2);
          head_h_mm = px_to_mm (chin - top_px);
          h = draw_on h img (\<lambda>im. draw_text im (img_w div 2 + 65, (top_px + chin) div 2)
                (''Head: '' @ fmt1 head_h_mm @ ''mm'') red)
      in case lm_at landmarks 33 of Inl e \<Rightarrow> (h, Inl e) | Inr l33 \<Rightarrow>
         let left_eye = py_int (fmul_int (lm_y l33) img_h) in
         case lm_at landmarks 263 of Inl e \<Rightarrow> (h, Inl e) | Inr l263 \<Rightarrow>
         let right_eye = py_int (fmul_int (lm_y l263) img_h);
             eye_y = (left_eye + right_eye) div 2;
             h = draw_on h img (\<lambda>im. draw_line im [(0, eye_y), (img_w, eye_y)] blue 2);
             eye_from_bottom_mm = px_to_mm (img_h - eye_y);
             h = draw_on h img (\<lambda>im. draw_text im (img_w - 120, eye_y + 5)
                   (''Eye from bottom: '' @ fmt1 eye_from_bottom_mm @ ''mm'') blue)
         in (h, Inr img))"

text \<open>
  The caller's preview: the landmarks are detected again on the processed image, the processed
  image is copied, and the overlay is drawn on the copy when a face was found.
\<close>

definition render_preview ::
  "(rgb image \<Rightarrow> landmark list option) \<Rightarrow>
   (rgb image \<Rightarrow> (int \<times> int) list \<Rightarrow> rgb \<Rightarrow> int \<Rightarrow> rgb image) \<Rightarrow>
   (rgb image \<Rightarrow> int \<times> int \<Rightarrow> string \<Rightarrow> rgb \<Rightarrow> rgb image) \<Rightarrow> (rat \<Rightarrow> string) \<Rightarrow>
   heap \<Rightarrow> nat \<Rightarrow> heap \<times> (py_error + nat)" where
  "render_preview detect draw_line draw_text fmt1 h processed_img =
     (let np_img = objs h processed_img;
          img_h = height np_img;
          img_w = width np_img;
          landmarks = detect np_img;
          (h, preview_img) = pil_copy h processed_img
      in case landmarks of
           None \<Rightarrow> (h, Inr preview_img)
         | Some lms \<Rightarrow>
             if lms = [] then (h, Inr preview_img)
             else add_measurement_overlay draw_line draw_text fmt1 h preview_img lms img_h img_w)"

section \<open>Soft warning checks\<close>

definition ATTIRE_WARNING :: string where
  "ATTIRE_WARNING = ''Attire may be too white (bottom of image is very light).''"

definition CONTRAST_WARNING :: string where
  "CONTRAST_WARNING = ''High contrast: There may be distracting shadows or lighting.''"

text \<open>
  \<open>check_warnings\<close>.  The library calls are parameters: \<open>cvtColor\<close> is the conversion to
  grayscale, \<open>np_mean\<close> and \<open>np_std\<close> are the mean and the standard deviation of a non-empty
  array, as floats.
\<close>

definition check_warnings ::
  "(rgb image \<Rightarrow> 8 word image) \<Rightarrow> (8 word image \<Rightarrow> rat) \<Rightarrow> (8 word image \<Rightarrow> rat) \<Rightarrow>
   heap \<Rightarrow> nat \<Rightarrow> heap \<times> string list" where
  "check_warnings cvtColor np_mean np_std h pil_img =
     (let np_img = objs h pil_img;
          gray = cvtColor np_img;
          warnings = [];
          bottom_roi = np_rows_from gray (- 80);
          warnings = (if 220 < np_mean bottom_roi then warnings @ [ATTIRE_WARNING] else warnings);
          warnings = (if 60 < np_std gray then warnings @ [CONTRAST_WARNING] else warnings)
      in (h, warnings))"

section \<open>4x6 image creation\<close>

definition positions :: "(int \<times> int) list" where
  "positions = [(0, 0), (600, 0), (0, 600), (600, 600), (0, 1200), (600, 1200)]"

text \<open>The border step: a black image, larger by the thickness on every side, with the photo inside.\<close>

definition add_border_frame :: "rgb image \<Rightarrow> int \<Rightarrow> py_error + rgb image" where
  "add_border_frame img border_thickness =
     (case Image_new (600 + 2 * border_thickness, 600 + 2 * border_thickness) black of
        Inl e \<Rightarrow> Inl e
      | Inr bordered_image \<Rightarrow> Inr (paste bordered_image img (border_thickness, border_thickness)))"

definition create_4x6_image ::
  "(rgb image \<Rightarrow> int \<times> int \<Rightarrow> rgb image) \<Rightarrow> rgb image \<Rightarrow> bool \<Rightarrow> int \<Rightarrow> py_error + rgb image" where
  "create_4x6_image resample img add_border border_thickness =
     (let canvas_width = 1200;
          canvas_height = 1800;
          canvas = blank canvas_width canvas_height white;
          img = pil_resize resample img (600, 600)
      in case (if add_border then add_border_frame img border_thickness else Inr img) of
           Inl e \<Rightarrow> Inl e
         | Inr img \<Rightarrow> Inr (fold (\<lambda>pos canvas. paste canvas img pos) positions canvas))"

section \<open>The specification's wording, for comparison\<close>

text \<open>
  The geometry contract as the specification words it: every coordinate rounded to the nearest
  integer (Python's \<^verbatim>\<open>round\<close>).
\<close>

definition spec_geometry_rounded ::
  "landmark list \<Rightarrow> int \<Rightarrow> int \<Rightarrow> int \<times> int \<times> int \<times> int \<times> int" where
  "spec_geometry_rounded landmark w h =
     (let top_px = round_half_even (fmul_int (lm_y (landmark ! 10)) h);
          chin = round_half_even (fmul_int (lm_y (landmark ! 152)) h);
          eyeY = round_half_even
                   (fmul_int (fdiv_lit (fadd (lm_y (landmark ! 33)) (lm_y (landmark ! 263))) 2) h);
          centerX = round_half_even
                   (fmul_int (fdiv_lit (fadd (lm_x (landmark ! 33)) (lm_x (landmark ! 263))) 2) w);
          centerY = round_half_even (fl (of_int (top_px + chin) / 2))
      in (top_px, chin, eyeY, centerX, centerY))"

text \<open>The same contract with truncation toward zero (\<^verbatim>\<open>int\<close>) in place of rounding.\<close>

definition geometry_truncated ::
  "landmark list \<Rightarrow> int \<Rightarrow> int \<Rightarrow> int \<times> int \<times> int \<times> int \<times> int" where
  "geometry_truncated landmark w h =
     (let top_px = py_int (fmul_int (lm_y (landmark ! 10)) h);
          chin = py_int (fmul_int (lm_y (landmark ! 152)) h);
          eyeY = py_int
                   (fmul_int (fdiv_lit (fadd (lm_y (landmark ! 33)) (lm_y (landmark ! 263))) 2) h);
          centerX = py_int
                   (fmul_int (fdiv_lit (fadd (lm_x (landmark ! 33)) (lm_x (landmark ! 263))) 2) w);
          centerY = py_int (fl (of_int (top_px + chin) / 2))
      in (top_px, chin, eyeY, centerX, centerY))"

text \<open>The number of pixel columns, and of pixel rows, that two paste boxes share.\<close>

definition overlap_x :: "int \<times> int \<times> int \<times> int \<Rightarrow> int \<times> int \<times> int \<times> int \<Rightarrow> int" where
  "overlap_x a b =
     (case a of (ax0, ay0, ax1, ay1) \<Rightarrow> case b of (bx0, by0, bx1, by1) \<Rightarrow>
        max 0 (min ax1 bx1 - max ax0 bx0))"

definition overlap_y :: "int \<times> int \<times> int \<times> int \<Rightarrow> int \<times> int \<times> int \<times> int \<Rightarrow> int" where
  "overlap_y a b =
     (case a of (ax0, ay0, ax1, ay1) \<Rightarrow> case b of (bx0, by0, bx1, by1) \<Rightarrow>
        max 0 (min ay1 by1 - max ay0 by0))"

section \<open>Sample inputs\<close>

definition uniform_landmarks :: "rat \<Rightarrow> landmark list" where
  "uniform_landmarks c = replicate 468 \<lparr>lm_x = c, lm_y = c\<rparr>"

text \<open>The synthetic landmark set of the specification's example; \<open>fl (1 / 10)\<close> is the float \<^verbatim>\<open>0.1\<close>.\<close>

definition synthetic_landmarks :: "landmark list" where
  "synthetic_landmarks =
     (uniform_landmarks 0)
       [10 := \<lparr>lm_x = fl (1 / 2), lm_y = fl (1 / 10)\<rparr>,
        152 := \<lparr>lm_x = fl (1 / 2), lm_y = fl (9 / 10)\<rparr>,
        33 := \<lparr>lm_x = fl (2 / 5), lm_y = fl (3 / 10)\<rparr>,
        263 := \<lparr>lm_x = fl (3 / 5), lm_y = fl (3 / 10)\<rparr>]"

text \<open>A photo that is white except for one black pixel at column 7, row 9.\<close>

definition dotted :: "int \<Rightarrow> int \<Rightarrow> rgb image" where
  "dotted w h = \<lparr>width = w, height = h, pix = (\<lambda>x y. if x = 7 \<and> y = 9 then black else white)\<rparr>"

text \<open>A stand-in for \<^verbatim>\<open>cv2.resize\<close>: nearest neighbour, and an error on an empty size.\<close>

definition sample_resize :: "rgb image \<Rightarrow> int \<times> int \<Rightarrow> py_error + rgb image" where
  "sample_resize im sz =
     (if fst sz \<le> 0 \<or> snd sz \<le> 0 \<or> width im \<le> 0 \<or> height im \<le> 0 then Inl CvError
      else Inr \<lparr>width = fst sz, height = snd sz,
                pix = (\<lambda>x y. pix im (x * width im div fst sz) (y * height im div snd sz))\<rparr>)"

text \<open>
  Stand-ins for the rasterisers: the line colours the pixels of a horizontal segment on its own
  row (PIL colours these too), the text draws nothing, the format is empty.
\<close>

definition sample_line :: "rgb image \<Rightarrow> (int \<times> int) list \<Rightarrow> rgb \<Rightarrow> int \<Rightarrow> rgb image" where
  "sample_line im pts c w =
     (case pts of
        [(x0, y0), (x1, y1)] \<Rightarrow>
          im\<lparr>pix := (\<lambda>x y. if y = y0 \<and> y0 = y1 \<and> x0 \<le> x \<and> x \<le> x1 \<and> 0 \<le> x \<and> x < width im
                            \<and> 0 \<le> y \<and> y < height im
                          then c else pix im x y)\<rparr>
      | _ \<Rightarrow> im)"

definition sample_text :: "rgb image \<Rightarrow> int \<times> int \<Rightarrow> string \<Rightarrow> rgb \<Rightarrow> rgb image" where
  "sample_text im pos s c = im"

definition sample_fmt :: "rat \<Rightarrow> string" where
  "sample_fmt v = []"

definition sample_heap :: heap where
  "sample_heap = \<lparr>objs = (\<lambda>r. blank 600 600 white), next_ref = 1\<rparr>"

text \<open>Stand-ins for the grayscale conversion (the red channel) and for the statistics.\<close>

definition sample_gray :: "rgb image \<Rightarrow> 8 word image" where
  "sample_gray im = \<lparr>width = width im, height = height im, pix = (\<lambda>x y. fst (pix im x y))\<rparr>"

definition sample_mean :: "8 word image \<Rightarrow> rat" where
  "sample_mean g = of_nat (unat (pix g 0 0))"

definition sample_std :: "8 word image \<Rightarrow> rat" where
  "sample_std g = 0"

section \<open>Properties of the float model\<close>

lemma bitlen_pow_bounds:
  assumes "0 < m"
  shows "(2::rat) powi (bitlen m - 1) \<le> of_int m" and "of_int m < (2::rat) powi (bitlen m)"
proof -
  from bitlen_bounds [OF assms]
  have lo: "2 ^ nat (bitlen m - 1) \<le> m" and hi: "m < 2 ^ nat (bitlen m)" by simp_all
  have b1: "1 \<le> bitlen m" using assms bitlen_eq_zero_iff [of m] bitlen_nonneg [of m] by linarith
  have "(2::rat) powi (bitlen m - 1) = 2 ^ nat (bitlen m - 1)"
    using b1 by (simp add: power_int_def)
  also have "\<dots> = of_int (2 ^ nat (bitlen m - 1))" by simp
  also have "\<dots> \<le> of_int m" using lo by (simp only: of_int_le_iff)
  finally show "(2::rat) powi (bitlen m - 1) \<le> of_int m" .
  have "(of_int m :: rat) < of_int (2 ^ nat (bitlen m))" using hi by (simp only: of_int_less_iff)
  also have "\<dots> = 2 ^ nat (bitlen m)" by simp
  also have "\<dots> = (2::rat) powi (bitlen m)" using b1 by (simp add: power_int_def)
  finally show "of_int m < (2::rat) powi (bitlen m)" .
qed

lemma ilog2_lower:
  assumes "0 < x"
  shows "2 powi (ilog2 x) \<le> x"
proof (cases "1 \<le> x")
  case True
  then have m: "0 < \<lfloor>x\<rfloor>" by linarith
  have "2 powi (ilog2 x) = (2::rat) powi (bitlen \<lfloor>x\<rfloor> - 1)" using True by (simp add: ilog2_def)
  also have "\<dots> \<le> of_int \<lfloor>x\<rfloor>" by (rule bitlen_pow_bounds(1) [OF m])
  also have "\<dots> \<le> x" by simp
  finally show ?thesis .
next
  case False
  define y where "y = 1 / x"
  define m where "m = \<lceil>y\<rceil> - 1"
  have y1: "1 < y" using False assms by (simp add: y_def)
  then have m: "0 < m" unfolding m_def by linarith
  have yle: "y \<le> of_int m + 1" unfolding m_def by simp
  have "of_int m + 1 = (of_int (m + 1) :: rat)" by simp
  also have "\<dots> \<le> of_int (2 ^ nat (bitlen m))"
    using bitlen_bounds [OF m] by (simp only: of_int_le_iff) simp
  also have "\<dots> = (2::rat) powi (bitlen m)"
    using bitlen_nonneg [of m] by (simp add: power_int_def)
  finally have "y \<le> 2 powi (bitlen m)" using yle by linarith
  then have "1 / (2 powi (bitlen m)) \<le> 1 / y"
    using y1 by (intro divide_left_mono) (auto intro: mult_pos_pos)
  moreover have "1 / y = x" by (simp add: y_def)
  moreover have "2 powi (ilog2 x) = 1 / ((2::rat) powi (bitlen m))"
    using False by (simp add: ilog2_def m_def y_def power_int_minus_divide)
  ultimately show ?thesis by simp
qed

lemma ilog2_upper:
  assumes "0 < x"
  shows "x < 2 powi (ilog2 x + 1)"
proof (cases "1 \<le> x")
  case True
  then have m: "0 < \<lfloor>x\<rfloor>" by linarith
  have "x < of_int \<lfloor>x\<rfloor> + 1" by linarith
  also have "\<dots> = of_int (\<lfloor>x\<rfloor> + 1)" by simp
  also have "\<dots> \<le> of_int (2 ^ nat (bitlen \<lfloor>x\<rfloor>))"
    using bitlen_bounds [OF m] by (simp only: of_int_le_iff) simp
  also have "\<dots> = (2::rat) powi (bitlen \<lfloor>x\<rfloor>)"
    using bitlen_nonneg [of "\<lfloor>x\<rfloor>"] by (simp add: power_int_def)
  also have "\<dots> = 2 powi (ilog2 x + 1)" using True by (simp add: ilog2_def)
  finally show ?thesis .
next
  case False
  define y where "y = 1 / x"
  define m where "m = \<lceil>y\<rceil> - 1"
  have y1: "1 < y" using False assms by (simp add: y_def)
  then have m: "0 < m" unfolding m_def by linarith
  have my: "of_int m < y" unfolding m_def by linarith
  have p: "(0::rat) < 2 powi (bitlen m - 1)" by simp
  have "(2::rat) powi (bitlen m - 1) \<le> of_int m" by (rule bitlen_pow_bounds(1) [OF m])
  then have "(2::rat) powi (bitlen m - 1) < y" using my by linarith
  then have "1 / y < 1 / (2 powi (bitlen m - 1))"
    using p y1 by (intro divide_strict_left_mono) (auto intro: mult_pos_pos)
  moreover have "1 / y = x" by (simp add: y_def)
  moreover have "2 powi (ilog2 x + 1) = 1 / ((2::rat) powi (bitlen m - 1))"
  proof -
    have "ilog2 x + 1 = - (bitlen m - 1)" using False by (simp add: ilog2_def m_def y_def)
    then show ?thesis by (simp only: power_int_minus_divide)
  qed
  ultimately show ?thesis by simp
qed

lemma round_half_even_error: "\<bar>of_int (round_half_even x) - x\<bar> \<le> 1 / 2"
proof -
  have "of_int \<lfloor>x\<rfloor> \<le> x" "x < of_int \<lfloor>x\<rfloor> + 1" by linarith+
  then show ?thesis by (auto simp: round_half_even_def Let_def)
qed

lemma fl_error:
  "\<bar>fl x - x\<bar> \<le> \<bar>x\<bar> / 2 ^ 53"
proof (cases "x = 0")
  case True
  then show ?thesis by (simp add: fl_def)
next
  case False
  define e where "e = ilog2 \<bar>x\<bar>"
  define u :: rat where "u = 2 powi (e - 52)"
  have u0: "0 < u" by (simp add: u_def)
  have ax: "0 < \<bar>x\<bar>" using False by simp
  have flx: "fl x = of_int (round_half_even (x / u)) * u"
    using False by (simp add: fl_def u_def e_def Let_def)
  have "fl x - x = (of_int (round_half_even (x / u)) - x / u) * u"
    using u0 by (simp add: flx algebra_simps)
  then have "\<bar>fl x - x\<bar> = \<bar>of_int (round_half_even (x / u)) - x / u\<bar> * u"
    using u0 by (simp add: abs_mult)
  also have "\<dots> \<le> (1 / 2) * u"
    using u0 round_half_even_error [of "x / u"] by (intro mult_right_mono) simp_all
  also have "\<dots> = 2 powi e / 2 ^ 53"
    by (simp add: u_def power_int_diff)
  also have "\<dots> \<le> \<bar>x\<bar> / 2 ^ 53"
    using ilog2_lower [OF ax] by (simp add: e_def divide_right_mono)
  finally show ?thesis .
qed

lemma fl_upper:
  assumes "0 \<le> x"
  shows "fl x \<le> x * (1 + 1 / 2 ^ 53)"
proof -
  have "fl x - x \<le> \<bar>fl x - x\<bar>" by (rule abs_ge_self)
  also have "\<dots> \<le> \<bar>x\<bar> / 2 ^ 53" by (rule fl_error)
  also have "\<dots> = x / 2 ^ 53" using assms by simp
  finally have "fl x \<le> x + x / 2 ^ 53" by linarith
  also have "\<dots> = x * (1 + 1 / 2 ^ 53)" by (simp only: distrib_left mult_1_right times_divide_eq_right)
  finally show ?thesis .
qed

lemma fl_lower:
  assumes "0 \<le> x"
  shows "x * (1 - 1 / 2 ^ 53) \<le> fl x"
proof -
  have "x - fl x \<le> \<bar>fl x - x\<bar>" by (simp only: abs_minus_commute abs_ge_self)
  also have "\<dots> \<le> \<bar>x\<bar> / 2 ^ 53" by (rule fl_error)
  also have "\<dots> = x / 2 ^ 53" using assms by simp
  finally have "x - x / 2 ^ 53 \<le> fl x" by linarith
  moreover have "x - x / 2 ^ 53 = x * (1 - 1 / 2 ^ 53)"
    by (simp only: right_diff_distrib mult_1_right times_divide_eq_right)
  ultimately show ?thesis by simp
qed

lemma fl_nonneg: "0 \<le> x \<Longrightarrow> 0 \<le> fl x"
proof -
  assume x: "0 \<le> x"
  have "0 \<le> x * (1 - 1 / 2 ^ 53)" using x by (intro mult_nonneg_nonneg) simp_all
  then show ?thesis using fl_lower [OF x] by linarith
qed

lemma round_half_even_unique:
  assumes "\<bar>x - of_int n\<bar> < 1 / 2"
  shows "round_half_even x = n"
proof -
  have a: "of_int (round_half_even x) - x \<le> 1 / 2" "x - of_int (round_half_even x) \<le> 1 / 2"
    using round_half_even_error [of x] by linarith+
  have b: "x - of_int n < 1 / 2" "of_int n - x < 1 / 2" using assms by linarith+
  have "(of_int (round_half_even x) :: rat) - of_int n < 1" "(of_int n :: rat) - of_int (round_half_even x) < 1"
    using a b by linarith+
  then have "(of_int (round_half_even x - n) :: rat) < of_int 1" "(of_int (n - round_half_even x) :: rat) < of_int 1"
    by simp_all
  then have "round_half_even x - n < 1" "n - round_half_even x < 1"
    by (simp_all only: of_int_less_iff)
  then show ?thesis by linarith
qed

section \<open>Unit converter\<close>

lemma float_of_int_51: "float_of_int 51 = 51"
  by code_simp

lemma float_of_int_600: "float_of_int 600 = 600"
  by code_simp

lemma px_to_mm_unfold: "px_to_mm px = fl (fl (of_int px / 600) * 51)"
  by (simp add: px_to_mm_def fmul_int_def float_of_int_51 OUTPUT_SIZE_PX_def)

lemma mm_to_px_unfold: "mm_to_px mm = round_half_even (fl (fl (mm / 51) * 600))"
  by (simp add: mm_to_px_def fmul_int_def fdiv_lit_def float_of_int_51 float_of_int_600 OUTPUT_SIZE_PX_def)

lemma mm_to_px_px_to_mm_exact:
  assumes "0 \<le> px" and "px \<le> 2 ^ 49"
  shows "mm_to_px (px_to_mm px) = px"
proof -
  define U :: rat where "U = 1 + 1 / 2 ^ 53"
  define L :: rat where "L = 1 - 1 / 2 ^ 53"
  define p :: rat where "p = of_int px"
  define a where "a = fl (p / 600)"
  define b where "b = fl (a * 51)"
  define c where "c = fl (b / 51)"
  define d where "d = fl (c * 600)"
  have U0: "0 \<le> U" and L0: "0 \<le> L" by (simp_all add: U_def L_def)
  have p0: "0 \<le> p" and p49: "p \<le> 2 ^ 49"
    using assms by (simp_all add: p_def)
  have x0: "0 \<le> p / 600" using p0 by simp
  have a0: "0 \<le> a" unfolding a_def by (rule fl_nonneg [OF x0])
  have a51: "0 \<le> a * 51" using a0 by simp
  have b0: "0 \<le> b" unfolding b_def by (rule fl_nonneg [OF a51])
  have b51: "0 \<le> b / 51" using b0 by simp
  have c0: "0 \<le> c" unfolding c_def by (rule fl_nonneg [OF b51])
  have c600: "0 \<le> c * 600" using c0 by simp
  have aU: "a \<le> p / 600 * U" unfolding a_def U_def by (rule fl_upper [OF x0])
  have aL: "p / 600 * L \<le> a" unfolding a_def L_def by (rule fl_lower [OF x0])
  have "b \<le> a * 51 * U" unfolding b_def U_def by (rule fl_upper [OF a51])
  also have "\<dots> \<le> (p / 600 * U) * 51 * U"
    using aU U0 by (intro mult_right_mono) simp_all
  finally have bU: "b \<le> p / 600 * 51 * U ^ 2" by (simp add: power2_eq_square mult_ac)
  have "p / 600 * L * 51 * L \<le> a * 51 * L"
    using aL L0 by (intro mult_right_mono) simp_all
  also have "\<dots> \<le> b" unfolding b_def L_def by (rule fl_lower [OF a51])
  finally have bL: "p / 600 * 51 * L ^ 2 \<le> b" by (simp add: power2_eq_square mult_ac)
  have "c \<le> b / 51 * U" unfolding c_def U_def by (rule fl_upper [OF b51])
  also have "\<dots> \<le> (p / 600 * 51 * U ^ 2) / 51 * U"
    using bU U0 by (intro mult_right_mono divide_right_mono) simp_all
  finally have cU: "c \<le> p / 600 * U ^ 3" by (simp add: power3_eq_cube power2_eq_square mult_ac)
  have "(p / 600 * 51 * L ^ 2) / 51 * L \<le> b / 51 * L"
    using bL L0 by (intro mult_right_mono divide_right_mono) simp_all
  also have "\<dots> \<le> c" unfolding c_def L_def by (rule fl_lower [OF b51])
  finally have cL: "p / 600 * L ^ 3 \<le> c" by (simp add: power3_eq_cube power2_eq_square mult_ac)
  have "d \<le> c * 600 * U" unfolding d_def U_def by (rule fl_upper [OF c600])
  also have "\<dots> \<le> (p / 600 * U ^ 3) * 600 * U"
    using cU U0 by (intro mult_right_mono) simp_all
  also have "\<dots> = p * U ^ 4" by (simp add: power_eq_if)
  finally have dU: "d \<le> p * U ^ 4" .
  have "p * L ^ 4 = (p / 600 * L ^ 3) * 600 * L" by (simp add: power_eq_if)
  also have "\<dots> \<le> c * 600 * L"
    using cL L0 by (intro mult_right_mono) simp_all
  also have "\<dots> \<le> d" unfolding d_def L_def by (rule fl_lower [OF c600])
  finally have dL: "p * L ^ 4 \<le> d" .
  have U4: "0 \<le> U ^ 4 - 1" and U4': "2 ^ 49 * (U ^ 4 - 1) < 1 / 2"
    by (simp_all add: U_def power_divide)
  have L4: "0 \<le> 1 - L ^ 4" and L4': "2 ^ 49 * (1 - L ^ 4) < 1 / 2"
    by (simp_all add: L_def power_divide)
  have "d - p \<le> p * U ^ 4 - p" using dU by simp
  also have "\<dots> = p * (U ^ 4 - 1)" by (simp add: algebra_simps)
  also have "\<dots> \<le> 2 ^ 49 * (U ^ 4 - 1)" using p49 U4 by (rule mult_right_mono)
  finally have up: "d - p < 1 / 2" using U4' by linarith
  have "p - d \<le> p - p * L ^ 4" using dL by simp
  also have "\<dots> = p * (1 - L ^ 4)" by (simp add: algebra_simps)
  also have "\<dots> \<le> 2 ^ 49 * (1 - L ^ 4)" using p49 L4 by (rule mult_right_mono)
  finally have lo: "p - d < 1 / 2" using L4' by linarith
  have "\<bar>d - of_int px\<bar> < 1 / 2" using up lo unfolding p_def by linarith
  then have "round_half_even d = px" by (rule round_half_even_unique)
  moreover have "mm_to_px (px_to_mm px) = round_half_even d"
    by (simp add: mm_to_px_unfold px_to_mm_unfold d_def c_def b_def a_def p_def)
  ultimately show ?thesis by simp
qed

text \<open>
  C7: for every pixel count \<open>px\<close> with \<open>0 \<le> px \<le> 2 ^ 49\<close> (which covers the 600 px output
  space), converting to millimetres and back gives a value within 1 of \<open>px\<close>.
\<close>

theorem unit_roundtrip_within_one:
  "0 \<le> px \<Longrightarrow> px \<le> 2 ^ 49 \<Longrightarrow> \<bar>mm_to_px (px_to_mm px) - px\<bar> \<le> 1"
  by (simp add: mm_to_px_px_to_mm_exact)

theorem unit_roundtrip_within_one_witness:
  "(0::int) \<le> 600 \<and> (600::int) \<le> 2 ^ 49 \<and> \<bar>mm_to_px (px_to_mm 600) - 600\<bar> \<le> 1"
  using unit_roundtrip_within_one [of 600] by simp

section \<open>Geometry extractor\<close>

lemma py_int_nonneg: "0 \<le> x \<Longrightarrow> py_int x = \<lfloor>x\<rfloor>"
  by (simp add: py_int_def)

lemma get_head_and_eye_positions_total:
  assumes "263 < length landmarks"
  shows "get_head_and_eye_positions landmarks w h = Inr (geometry_truncated landmarks w h)"
  using assms
  by (simp add: get_head_and_eye_positions_def geometry_truncated_def lm_at_def int_truediv_def Let_def)

lemma uniform_landmarks_nth:
  "length (uniform_landmarks c) = 468"
  "i < 468 \<Longrightarrow> uniform_landmarks c ! i = \<lparr>lm_x = c, lm_y = c\<rparr>"
  by (simp_all add: uniform_landmarks_def)

lemma synthetic_landmarks_nth:
  "length synthetic_landmarks = 468"
  "synthetic_landmarks ! 10 = \<lparr>lm_x = fl (1 / 2), lm_y = fl (1 / 10)\<rparr>"
  "synthetic_landmarks ! 152 = \<lparr>lm_x = fl (1 / 2), lm_y = fl (9 / 10)\<rparr>"
  "synthetic_landmarks ! 33 = \<lparr>lm_x = fl (2 / 5), lm_y = fl (3 / 10)\<rparr>"
  "synthetic_landmarks ! 263 = \<lparr>lm_x = fl (3 / 5), lm_y = fl (3 / 10)\<rparr>"
  by (simp_all add: synthetic_landmarks_def uniform_landmarks_def)

lemma trunc_7_8: "py_int (fmul_int (7 / 8) 10) = 8"
  by code_simp

lemma trunc_avg_7_8: "py_int (fmul_int (fdiv_lit (fadd (7 / 8) (7 / 8)) 2) 10) = 8"
  by code_simp

lemma trunc_mid_8: "py_int (fl 8) = 8"
  by code_simp

lemma round_7_8: "round_half_even (fmul_int (7 / 8) 10) = 9"
  by code_simp

lemma round_avg_7_8: "round_half_even (fmul_int (fdiv_lit (fadd (7 / 8) (7 / 8)) 2) 10) = 9"
  by code_simp

lemma round_mid_9: "round_half_even (fl 9) = 9"
  by code_simp

lemma geometry_truncated_7_8:
  "geometry_truncated (uniform_landmarks (7 / 8)) 10 10 = (8, 8, 8, 8, 8)"
  by (simp add: geometry_truncated_def uniform_landmarks_nth trunc_7_8 trunc_avg_7_8 trunc_mid_8)

lemma spec_geometry_rounded_7_8:
  "spec_geometry_rounded (uniform_landmarks (7 / 8)) 10 10 = (9, 9, 9, 9, 9)"
  by (simp add: spec_geometry_rounded_def uniform_landmarks_nth round_7_8 round_avg_7_8 round_mid_9)

text \<open>
  C4, as stated, fails: with every landmark at \<open>(0.875, 0.875)\<close> on a 10 x 10 image the code
  returns 8 for each coordinate (8.75 truncated), where rounding to the nearest integer gives 9.
\<close>

theorem geometry_rounding_counterexample:
  "get_head_and_eye_positions (uniform_landmarks (7 / 8)) 10 10 = Inr (8, 8, 8, 8, 8)
   \<and> spec_geometry_rounded (uniform_landmarks (7 / 8)) 10 10 = (9, 9, 9, 9, 9)"
  by (simp add: get_head_and_eye_positions_total uniform_landmarks_nth geometry_truncated_7_8
      spec_geometry_rounded_7_8)

text \<open>
  C4, amended: for every landmark set with the four indices 10, 152, 33 and 263 and all image
  dimensions, the Geometry Extractor returns the coordinates of the contract with each value
  truncated toward zero (\<^verbatim>\<open>int\<close>) instead of rounded to the nearest integer.
\<close>

theorem geometry_extractor_truncates:
  "263 < length landmarks \<Longrightarrow>
   get_head_and_eye_positions landmarks w h = Inr (geometry_truncated landmarks w h)"
  by (rule get_head_and_eye_positions_total)

theorem geometry_extractor_truncates_witness:
  "263 < length (uniform_landmarks (7 / 8))
   \<and> get_head_and_eye_positions (uniform_landmarks (7 / 8)) 10 10 = Inr (8, 8, 8, 8, 8)"
  using geometry_extractor_truncates [of "uniform_landmarks (7 / 8)" 10 10]
  by (simp add: uniform_landmarks_nth geometry_truncated_7_8)

lemma ex_top: "py_int (fmul_int (fl (1 / 10)) 1000) = 100"
  by code_simp

lemma ex_chin: "py_int (fmul_int (fl (9 / 10)) 1000) = 900"
  by code_simp

lemma ex_eye: "py_int (fmul_int (fdiv_lit (fadd (fl (3 / 10)) (fl (3 / 10))) 2) 1000) = 300"
  by code_simp

lemma ex_center_x: "py_int (fmul_int (fdiv_lit (fadd (fl (2 / 5)) (fl (3 / 5))) 2) 1000) = 500"
  by code_simp

lemma ex_center_y: "py_int (fl 500) = 500"
  by code_simp

text \<open>
  C9: for a landmark set with \<open>landmark[10].y = 0.1\<close>, \<open>landmark[152].y = 0.9\<close>,
  \<open>landmark[33] = (0.4, 0.3)\<close> and \<open>landmark[263] = (0.6, 0.3)\<close> (the floats of these literals;
  0.4 and 0.6 are written \<open>2 / 5\<close> and \<open>3 / 5\<close>) on a 1000 x 1000 image, the Geometry Extractor
  returns top 100, chin 900, eyeY 300, centerX 500 and centerY 500.
\<close>

theorem geometry_synthetic_example:
  assumes "263 < length landmarks"
    and "lm_y (landmarks ! 10) = fl (1 / 10)"
    and "lm_y (landmarks ! 152) = fl (9 / 10)"
    and "lm_x (landmarks ! 33) = fl (2 / 5)" and "lm_y (landmarks ! 33) = fl (3 / 10)"
    and "lm_x (landmarks ! 263) = fl (3 / 5)" and "lm_y (landmarks ! 263) = fl (3 / 10)"
  shows "get_head_and_eye_positions landmarks 1000 1000 = Inr (100, 900, 300, 500, 500)"
  using assms
  by (simp add: get_head_and_eye_positions_total geometry_truncated_def ex_top ex_chin ex_eye
      ex_center_x ex_center_y)

theorem geometry_synthetic_example_witness:
  "263 < length synthetic_landmarks
   \<and> lm_y (synthetic_landmarks ! 10) = fl (1 / 10)
   \<and> lm_y (synthetic_landmarks ! 152) = fl (9 / 10)
   \<and> lm_x (synthetic_landmarks ! 33) = fl (2 / 5) \<and> lm_y (synthetic_landmarks ! 33) = fl (3 / 10)
   \<and> lm_x (synthetic_landmarks ! 263) = fl (3 / 5) \<and> lm_y (synthetic_landmarks ! 263) = fl (3 / 10)
   \<and> get_head_and_eye_positions synthetic_landmarks 1000 1000 = Inr (100, 900, 300, 500, 500)"
  using geometry_synthetic_example [of synthetic_landmarks]
  by (simp add: synthetic_landmarks_nth)

section \<open>Photo processing\<close>

lemma NO_FACE_MSG_nonempty: "NO_FACE_MSG \<noteq> []"
  by (simp add: NO_FACE_MSG_def)

lemma process_photo_no_landmarks:
  "detect (flatten img) = None \<or> detect (flatten img) = Some [] \<Longrightarrow>
   process_photo flatten detect cv2_resize img = Inr (None, NO_FACE_MSG)"
  by (auto simp: process_photo_def Let_def)

lemma process_photo_with_landmarks:
  assumes "detect (flatten img) = Some lms" and "lms \<noteq> []"
    and "process_photo flatten detect cv2_resize img = Inr (r, msg)"
  shows "r \<noteq> None \<and> msg = []"
  using assms
  by (auto simp: process_photo_def Let_def split: sum.splits prod.splits)

text \<open>
  C2: if the landmark oracle returns no landmarks, \<open>process_photo\<close> returns no image and the
  non-empty message \<open>NO_FACE_MSG\<close>; and whenever \<open>process_photo\<close> returns no image or a non-empty
  message, the oracle returned no landmarks.
\<close>

theorem no_face_detected_iff_no_landmarks:
  "(detect (flatten img) = None \<or> detect (flatten img) = Some [] \<longrightarrow>
      process_photo flatten detect cv2_resize img = Inr (None, NO_FACE_MSG))
   \<and> NO_FACE_MSG \<noteq> []
   \<and> (\<forall>r msg. process_photo flatten detect cv2_resize img = Inr (r, msg) \<and> (r = None \<or> msg \<noteq> [])
        \<longrightarrow> detect (flatten img) = None \<or> detect (flatten img) = Some [])"
proof (intro conjI allI impI)
  assume "detect (flatten img) = None \<or> detect (flatten img) = Some []"
  then show "process_photo flatten detect cv2_resize img = Inr (None, NO_FACE_MSG)"
    by (rule process_photo_no_landmarks)
next
  show "NO_FACE_MSG \<noteq> []" by (rule NO_FACE_MSG_nonempty)
next
  fix r msg
  assume a: "process_photo flatten detect cv2_resize img = Inr (r, msg) \<and> (r = None \<or> msg \<noteq> [])"
  show "detect (flatten img) = None \<or> detect (flatten img) = Some []"
  proof (rule ccontr)
    assume "\<not> (detect (flatten img) = None \<or> detect (flatten img) = Some [])"
    then obtain lms where "detect (flatten img) = Some lms" and "lms \<noteq> []" by auto
    with a show False using process_photo_with_landmarks [of detect flatten img lms cv2_resize r msg]
      by auto
  qed
qed

theorem no_face_detected_iff_no_landmarks_witness:
  "process_photo (\<lambda>im. im) (\<lambda>im. None) sample_resize (dotted 1000 1000) = Inr (None, NO_FACE_MSG)
   \<and> NO_FACE_MSG \<noteq> []"
  using no_face_detected_iff_no_landmarks
          [of "\<lambda>im. None" "\<lambda>im. im" "dotted 1000 1000" sample_resize]
  by simp

lemma process_photo_zero_head:
  assumes "detect (flatten img) = Some lms" and "lms \<noteq> []"
    and "get_head_and_eye_positions lms (width (flatten img)) (height (flatten img))
           = Inr (t, c, e, cx, cy)"
    and "c - t = 0"
  shows "process_photo flatten detect cv2_resize img = Inl ZeroDivisionError"
  using assms by (simp add: process_photo_def Let_def int_truediv_def)

lemma half_of_1000: "py_int (fmul_int (1 / 2) 1000) = 500"
  by code_simp

lemma half_avg_of_1000: "py_int (fmul_int (fdiv_lit (fadd (1 / 2) (1 / 2)) 2) 1000) = 500"
  by code_simp

lemma mid_500: "py_int (fl 500) = 500"
  by code_simp

lemma geometry_level_face:
  "get_head_and_eye_positions (uniform_landmarks (1 / 2)) 1000 1000 = Inr (500, 500, 500, 500, 500)"
  by (simp add: get_head_and_eye_positions_total geometry_truncated_def uniform_landmarks_nth
      half_of_1000 half_avg_of_1000 mid_500)

text \<open>
  C1: on a 1000 x 1000 photo whose landmarks all lie at \<open>(0.5, 0.5)\<close> the head height
  \<open>chin - top\<close> is 0, and \<open>process_photo\<close> is left by a ZeroDivisionError: there is no
  DegenerateGeometry result.
\<close>

theorem process_photo_zero_head_height_raises:
  "process_photo (\<lambda>im. im) (\<lambda>im. Some (uniform_landmarks (1 / 2))) sample_resize (dotted 1000 1000)
     = Inl ZeroDivisionError"
proof (rule process_photo_zero_head)
  show "(\<lambda>im. Some (uniform_landmarks (1 / 2))) ((\<lambda>im. im) (dotted 1000 1000))
          = Some (uniform_landmarks (1 / 2))" by simp
  show "uniform_landmarks (1 / 2) \<noteq> []" by (simp add: uniform_landmarks_def)
  show "get_head_and_eye_positions (uniform_landmarks (1 / 2))
          (width ((\<lambda>im. im) (dotted 1000 1000))) (height ((\<lambda>im. im) (dotted 1000 1000)))
        = Inr (500, 500, 500, 500, 500)"
    by (simp add: dotted_def geometry_level_face)
  show "(500::int) - 500 = 0" by simp
qed

section \<open>Crop rectangle\<close>

lemma clamp_crop_large: "OUTPUT_SIZE_PX \<le> n \<Longrightarrow> 0 \<le> clamp_crop c n \<and> clamp_crop c n \<le> n - OUTPUT_SIZE_PX"
  by (simp add: clamp_crop_def)

lemma clamp_crop_small: "n < OUTPUT_SIZE_PX \<Longrightarrow> clamp_crop c n = 0"
  by (simp add: clamp_crop_def)

lemma clamp_crop_nonneg: "0 \<le> clamp_crop c n"
  by (simp add: clamp_crop_def)

lemma np_slice_window:
  assumes "0 \<le> n"
  shows "np_slice n (clamp_crop c n) (clamp_crop c n + OUTPUT_SIZE_PX)
           = (clamp_crop c n, min OUTPUT_SIZE_PX n)"
  using assms by (auto simp: np_slice_def np_index_def clamp_crop_def OUTPUT_SIZE_PX_def)

lemma np_crop_window:
  assumes "0 \<le> width a" and "0 \<le> height a"
  shows "np_crop a (clamp_crop ct (height a), clamp_crop ct (height a) + OUTPUT_SIZE_PX)
                   (clamp_crop cl (width a), clamp_crop cl (width a) + OUTPUT_SIZE_PX)
         = \<lparr>width = min OUTPUT_SIZE_PX (width a), height = min OUTPUT_SIZE_PX (height a),
            pix = (\<lambda>x y. pix a (x + clamp_crop cl (width a)) (y + clamp_crop ct (height a)))\<rparr>"
  using assms by (simp add: np_crop_def np_slice_window)

lemma crop_and_pad_size:
  "width (crop_and_pad scaled new_w new_h ey cx) = OUTPUT_SIZE_PX"
  "height (crop_and_pad scaled new_w new_h ey cx) = OUTPUT_SIZE_PX"
  by (simp_all add: crop_and_pad_def paste_def blank_def Let_def split: prod.splits)

lemma crop_and_pad_pix:
  assumes "width scaled = new_w" and "height scaled = new_h" and "0 \<le> new_w" and "0 \<le> new_h"
    and "0 \<le> x" and "x < OUTPUT_SIZE_PX" and "0 \<le> y" and "y < OUTPUT_SIZE_PX"
  shows "pix (crop_and_pad scaled new_w new_h ey cx) x y =
           (let (crop_top, crop_left) = crop_offsets new_w new_h ey cx
            in if x + crop_left < new_w \<and> y + crop_top < new_h
               then pix scaled (x + crop_left) (y + crop_top) else white)"
proof -
  obtain ct cl where o: "crop_offsets new_w new_h ey cx = (clamp_crop ct new_h, clamp_crop cl new_w)"
    by (simp add: crop_offsets_def Let_def)
  have w: "np_crop scaled (clamp_crop ct new_h, clamp_crop ct new_h + OUTPUT_SIZE_PX)
                   (clamp_crop cl new_w, clamp_crop cl new_w + OUTPUT_SIZE_PX)
         = \<lparr>width = min OUTPUT_SIZE_PX new_w, height = min OUTPUT_SIZE_PX new_h,
            pix = (\<lambda>x y. pix scaled (x + clamp_crop cl new_w) (y + clamp_crop ct new_h))\<rparr>"
    using np_crop_window [of scaled ct cl] assms(1-4) by simp
  have l: "new_w < OUTPUT_SIZE_PX \<Longrightarrow> clamp_crop cl new_w = 0"
    and t: "new_h < OUTPUT_SIZE_PX \<Longrightarrow> clamp_crop ct new_h = 0"
    by (simp_all add: clamp_crop_small)
  have l': "OUTPUT_SIZE_PX \<le> new_w \<Longrightarrow> x + clamp_crop cl new_w < new_w"
    and t': "OUTPUT_SIZE_PX \<le> new_h \<Longrightarrow> y + clamp_crop ct new_h < new_h"
    using clamp_crop_large [of new_w cl] clamp_crop_large [of new_h ct] assms(6,8) by linarith+
  have step: "pix (crop_and_pad scaled new_w new_h ey cx) x y =
                (if x < min OUTPUT_SIZE_PX new_w \<and> y < min OUTPUT_SIZE_PX new_h
                 then pix scaled (x + clamp_crop cl new_w) (y + clamp_crop ct new_h) else white)"
    using assms(5-8)
    by (auto simp: crop_and_pad_def o w paste_def paste_box_def in_box_def blank_def Let_def)
  have ex: "(x < min OUTPUT_SIZE_PX new_w) = (x + clamp_crop cl new_w < new_w)"
    using l l' assms(6) by (cases "new_w < OUTPUT_SIZE_PX") auto
  have ey: "(y < min OUTPUT_SIZE_PX new_h) = (y + clamp_crop ct new_h < new_h)"
    using t t' assms(8) by (cases "new_h < OUTPUT_SIZE_PX") auto
  show ?thesis unfolding step ex ey o by simp
qed

lemma process_photo_output_size:
  assumes "process_photo flatten detect cv2_resize img = Inr (Some out, msg)"
  shows "width out = OUTPUT_SIZE_PX \<and> height out = OUTPUT_SIZE_PX"
  using assms
  by (auto simp: process_photo_def Let_def crop_and_pad_size
           split: option.splits if_splits sum.splits prod.splits)

text \<open>
  C3: after clamping, \<open>0 \<le> crop_top \<le> new_h - 600\<close> whenever \<open>new_h \<ge> 600\<close>, and likewise for
  \<open>crop_left\<close> and \<open>new_w\<close>; an offset is 0 when its side of the resized image is shorter than
  600.  The output is 600 x 600; its pixel \<open>(x, y)\<close> is the resized image's pixel at
  \<open>(x + crop_left, y + crop_top)\<close> where that exists and white elsewhere, so a smaller crop sits
  at the top left of a white canvas.  Every image that \<open>process_photo\<close> returns is 600 x 600.
\<close>

theorem crop_rectangle_clamped_and_padded:
  assumes "width scaled = new_w" and "height scaled = new_h" and "0 \<le> new_w" and "0 \<le> new_h"
    and "crop_offsets new_w new_h eye_y_scaled cx_scaled = (crop_top, crop_left)"
    and "out = crop_and_pad scaled new_w new_h eye_y_scaled cx_scaled"
  shows "(600 \<le> new_h \<longrightarrow> 0 \<le> crop_top \<and> crop_top \<le> new_h - 600)
       \<and> (new_h < 600 \<longrightarrow> crop_top = 0)
       \<and> (600 \<le> new_w \<longrightarrow> 0 \<le> crop_left \<and> crop_left \<le> new_w - 600)
       \<and> (new_w < 600 \<longrightarrow> crop_left = 0)
       \<and> width out = 600 \<and> height out = 600
       \<and> (\<forall>x y. 0 \<le> x \<and> x < 600 \<and> 0 \<le> y \<and> y < 600 \<longrightarrow>
             pix out x y = (if x + crop_left < new_w \<and> y + crop_top < new_h
                            then pix scaled (x + crop_left) (y + crop_top) else white))
       \<and> (\<forall>flatten detect cv2_resize img res msg.
             process_photo flatten detect cv2_resize (img :: 'raw) = Inr (Some res, msg) \<longrightarrow>
             width res = 600 \<and> height res = 600)"
proof -
  obtain ct cl where ct: "crop_top = clamp_crop ct new_h" and cl: "crop_left = clamp_crop cl new_w"
    using assms(5) by (auto simp: crop_offsets_def Let_def)
  have a: "600 \<le> new_h \<longrightarrow> 0 \<le> crop_top \<and> crop_top \<le> new_h - 600"
    using clamp_crop_large [of new_h ct] by (simp add: ct OUTPUT_SIZE_PX_def)
  have b: "new_h < 600 \<longrightarrow> crop_top = 0"
    using clamp_crop_small [of new_h ct] by (simp add: ct OUTPUT_SIZE_PX_def)
  have c: "600 \<le> new_w \<longrightarrow> 0 \<le> crop_left \<and> crop_left \<le> new_w - 600"
    using clamp_crop_large [of new_w cl] by (simp add: cl OUTPUT_SIZE_PX_def)
  have d: "new_w < 600 \<longrightarrow> crop_left = 0"
    using clamp_crop_small [of new_w cl] by (simp add: cl OUTPUT_SIZE_PX_def)
  have e: "width out = 600 \<and> height out = 600"
    using crop_and_pad_size [of scaled new_w new_h eye_y_scaled cx_scaled]
    by (simp add: assms(6) OUTPUT_SIZE_PX_def)
  have f: "\<forall>x y. 0 \<le> x \<and> x < 600 \<and> 0 \<le> y \<and> y < 600 \<longrightarrow>
             pix out x y = (if x + crop_left < new_w \<and> y + crop_top < new_h
                            then pix scaled (x + crop_left) (y + crop_top) else white)"
  proof (intro allI impI)
    fix x y :: int
    assume "0 \<le> x \<and> x < 600 \<and> 0 \<le> y \<and> y < 600"
    then have "0 \<le> x" "x < OUTPUT_SIZE_PX" "0 \<le> y" "y < OUTPUT_SIZE_PX"
      by (simp_all add: OUTPUT_SIZE_PX_def)
    from crop_and_pad_pix [OF assms(1-4) this, of eye_y_scaled cx_scaled]
    show "pix out x y = (if x + crop_left < new_w \<and> y + crop_top < new_h
                         then pix scaled (x + crop_left) (y + crop_top) else white)"
      by (simp add: assms(5,6))
  qed
  have g: "\<forall>flatten detect cv2_resize img res msg.
             process_photo flatten detect cv2_resize (img :: 'raw) = Inr (Some res, msg) \<longrightarrow>
             width res = 600 \<and> height res = 600"
    using process_photo_output_size by (fastforce simp: OUTPUT_SIZE_PX_def)
  from a b c d e f g show ?thesis by blast
qed

lemma sample_crop_offsets: "crop_offsets 500 700 244 250 = (9, 0)"
  by code_simp

theorem crop_rectangle_clamped_and_padded_witness:
  "crop_offsets 500 700 244 250 = (9, 0)
   \<and> width (crop_and_pad (dotted 500 700) 500 700 244 250) = 600
   \<and> height (crop_and_pad (dotted 500 700) 500 700 244 250) = 600
   \<and> pix (crop_and_pad (dotted 500 700) 500 700 244 250) 7 0 = black
   \<and> pix (crop_and_pad (dotted 500 700) 500 700 244 250) 550 0 = white"
proof -
  have s: "width (dotted 500 700) = 500" "height (dotted 500 700) = 700"
    by (simp_all add: dotted_def)
  have p: "(0::int) \<le> 500" "(0::int) \<le> 700" by simp_all
  note t = crop_rectangle_clamped_and_padded [OF s p sample_crop_offsets refl]
  from t have sz: "width (crop_and_pad (dotted 500 700) 500 700 244 250) = 600"
    "height (crop_and_pad (dotted 500 700) 500 700 244 250) = 600" by blast+
  from t have px: "\<forall>x y. 0 \<le> x \<and> x < 600 \<and> 0 \<le> y \<and> y < 600 \<longrightarrow>
      pix (crop_and_pad (dotted 500 700) 500 700 244 250) x y =
        (if x + 0 < 500 \<and> y + 9 < 700 then pix (dotted 500 700) (x + 0) (y + 9) else white)"
    by blast
  from px [rule_format, of 7 0] px [rule_format, of 550 0] sz sample_crop_offsets
  show ?thesis by (simp add: dotted_def)
qed

section \<open>Sheet compositor\<close>

lemma sheet_size:
  "width (fold (\<lambda>pos canvas. paste canvas im pos) positions c) = width c"
  "height (fold (\<lambda>pos canvas. paste canvas im pos) positions c) = height c"
  by (simp_all add: positions_def paste_def)

lemma pix_paste:
  "pix (paste canvas im (px, py)) x y =
     (if px \<le> x \<and> x < px + width im \<and> py \<le> y \<and> y < py + height im
      then pix im (x - px) (y - py) else pix canvas x y)"
  by (simp add: paste_def paste_box_def in_box_def)

lemma sheet_unfold:
  "fold (\<lambda>pos canvas. paste canvas im pos) positions c =
     paste (paste (paste (paste (paste (paste c im (0, 0)) im (600, 0)) im (0, 600)) im (600, 600))
             im (0, 1200)) im (600, 1200)"
  by (simp add: positions_def)

lemma sheet_pix_cell:
  assumes "600 \<le> width im" and "600 \<le> height im"
    and "i \<in> {0, 1}" and "j \<in> {0, 1, 2}"
    and "0 \<le> u" and "u < 600" and "0 \<le> v" and "v < 600"
  shows "pix (fold (\<lambda>pos canvas. paste canvas im pos) positions c) (600 * i + u) (600 * j + v)
           = pix im u v"
proof -
  consider "i = 0" "j = 0" | "i = 1" "j = 0" | "i = 0" "j = 1" | "i = 1" "j = 1"
    | "i = 0" "j = 2" | "i = 1" "j = 2"
    using assms(3,4) by auto
  then show ?thesis
  proof cases
    case 1 then show ?thesis using assms(1,2,5-8) by (simp add: sheet_unfold pix_paste)
  next
    case 2 then show ?thesis using assms(1,2,5-8) by (simp add: sheet_unfold pix_paste)
  next
    case 3 then show ?thesis using assms(1,2,5-8) by (simp add: sheet_unfold pix_paste)
  next
    case 4 then show ?thesis using assms(1,2,5-8) by (simp add: sheet_unfold pix_paste)
  next
    case 5 then show ?thesis using assms(1,2,5-8) by (simp add: sheet_unfold pix_paste)
  next
    case 6 then show ?thesis using assms(1,2,5-8) by (simp add: sheet_unfold pix_paste)
  qed
qed

lemma cell_of:
  fixes x :: int
  assumes "0 \<le> x" and "x < 600 * n" 
  shows "0 \<le> x div 600" and "x div 600 < n"
    and "600 * (x div 600) \<le> x" and "x < 600 * (x div 600) + 600"
    and "0 \<le> x mod 600" and "x mod 600 < 600"
proof -
  have e: "x = 600 * (x div 600) + x mod 600" by simp
  have m: "0 \<le> x mod 600" "x mod 600 < 600" by simp_all
  show "0 \<le> x mod 600" "x mod 600 < 600" by (rule m)+
  show "600 * (x div 600) \<le> x" "x < 600 * (x div 600) + 600" using e m by linarith+
  show "0 \<le> x div 600" using assms(1) by (simp add: pos_imp_zdiv_nonneg_iff)
  show "x div 600 < n" using e m assms(2) by linarith
qed

lemma sheet_pix:
  assumes "600 \<le> width im" and "600 \<le> height im"
    and "0 \<le> x" and "x < 1200" and "0 \<le> y" and "y < 1800"
  shows "pix (fold (\<lambda>pos canvas. paste canvas im pos) positions c) x y
           = pix im (x mod 600) (y mod 600)"
proof -
  have "0 \<le> x div 600" "x div 600 < 2" using cell_of [of x 2] assms(3,4) by simp_all
  then have i: "x div 600 \<in> {0, 1}" by auto
  have "0 \<le> y div 600" "y div 600 < 3" using cell_of [of y 3] assms(5,6) by simp_all
  then have j: "y div 600 \<in> {0, 1, 2}" by auto
  have "pix (fold (\<lambda>pos canvas. paste canvas im pos) positions c)
          (600 * (x div 600) + x mod 600) (600 * (y div 600) + y mod 600)
        = pix im (x mod 600) (y mod 600)"
    using assms(1,2) i j by (rule sheet_pix_cell) simp_all
  then show ?thesis by simp
qed

lemma positions_cells:
  "(ox, oy) \<in> set positions \<Longrightarrow> \<exists>i j. i \<in> {0, 1} \<and> j \<in> {0, 1, 2} \<and> ox = 600 * i \<and> oy = 600 * j"
  by (auto simp: positions_def)

lemma create_4x6_image_plain:
  assumes "width tile = 600" and "height tile = 600"
  shows "create_4x6_image resample tile False t
           = Inr (fold (\<lambda>pos canvas. paste canvas tile pos) positions (blank 1200 1800 white))"
  using assms by (simp add: create_4x6_image_def pil_resize_def Let_def)

text \<open>
  C8: for every 600 x 600 tile, the sheet without a border is a 1200 x 1800 canvas that shows
  the tile, pixel for pixel, at each of the six offsets \<open>(0,0)\<close>, \<open>(600,0)\<close>, \<open>(0,600)\<close>,
  \<open>(600,600)\<close>, \<open>(0,1200)\<close>, \<open>(600,1200)\<close>; every pixel of the canvas outside the six tiles is
  white (the six tiles cover the canvas).
\<close>

theorem sheet_without_border:
  assumes "width tile = 600" and "height tile = 600"
  shows "\<exists>canvas. create_4x6_image resample tile False t = Inr canvas
           \<and> width canvas = 1200 \<and> height canvas = 1800
           \<and> positions = [(0, 0), (600, 0), (0, 600), (600, 600), (0, 1200), (600, 1200)]
           \<and> (\<forall>pos \<in> set positions. \<forall>u v. 0 \<le> u \<and> u < 600 \<and> 0 \<le> v \<and> v < 600 \<longrightarrow>
                 pix canvas (fst pos + u) (snd pos + v) = pix tile u v)
           \<and> (\<forall>x y. 0 \<le> x \<and> x < 1200 \<and> 0 \<le> y \<and> y < 1800
                 \<and> (\<forall>pos \<in> set positions. \<not> in_box (paste_box tile pos) x y) \<longrightarrow>
                 pix canvas x y = white)"
proof -
  let ?c = "fold (\<lambda>pos canvas. paste canvas tile pos) positions (blank 1200 1800 white)"
  have r: "create_4x6_image resample tile False t = Inr ?c"
    using assms by (rule create_4x6_image_plain)
  have sz: "width ?c = 1200" "height ?c = 1800"
    by (simp_all add: sheet_size blank_def)
  have tiles: "\<forall>pos \<in> set positions. \<forall>u v. 0 \<le> u \<and> u < 600 \<and> 0 \<le> v \<and> v < 600 \<longrightarrow>
                 pix ?c (fst pos + u) (snd pos + v) = pix tile u v"
  proof (intro ballI allI impI)
    fix pos :: "int \<times> int" and u v :: int
    assume p: "pos \<in> set positions" and uv: "0 \<le> u \<and> u < 600 \<and> 0 \<le> v \<and> v < 600"
    obtain i j where ij: "i \<in> {0, 1}" "j \<in> {0, 1, 2}" "fst pos = 600 * i" "snd pos = 600 * j"
      using positions_cells [of "fst pos" "snd pos"] p by auto
    have "pix ?c (600 * i + u) (600 * j + v) = pix tile u v"
      using assms ij(1,2) uv by (intro sheet_pix_cell) simp_all
    then show "pix ?c (fst pos + u) (snd pos + v) = pix tile u v" by (simp add: ij)
  qed
  have rest: "\<forall>x y. 0 \<le> x \<and> x < 1200 \<and> 0 \<le> y \<and> y < 1800
                 \<and> (\<forall>pos \<in> set positions. \<not> in_box (paste_box tile pos) x y) \<longrightarrow>
                 pix ?c x y = white"
  proof (intro allI impI)
    fix x y :: int
    assume h: "0 \<le> x \<and> x < 1200 \<and> 0 \<le> y \<and> y < 1800
                 \<and> (\<forall>pos \<in> set positions. \<not> in_box (paste_box tile pos) x y)"
    have "0 \<le> x div 600" "x div 600 < 2" using cell_of [of x 2] h by simp_all
    then have i: "x div 600 = 0 \<or> x div 600 = 1" by linarith
    have "0 \<le> y div 600" "y div 600 < 3" using cell_of [of y 3] h by simp_all
    then have j: "y div 600 = 0 \<or> y div 600 = 1 \<or> y div 600 = 2" by linarith
    have "(600 * (x div 600), 600 * (y div 600)) \<in> set positions"
      using i j by (auto simp: positions_def)
    moreover have "in_box (paste_box tile (600 * (x div 600), 600 * (y div 600))) x y"
    proof -
      have "600 * (x div 600) \<le> x" "x < 600 * (x div 600) + 600"
        "600 * (y div 600) \<le> y" "y < 600 * (y div 600) + 600"
        using cell_of [of x 2] cell_of [of y 3] h by simp_all
      then show ?thesis by (simp add: paste_box_def in_box_def assms)
    qed
    ultimately have False using h by blast
    then show "pix ?c x y = white" ..
  qed
  have pl: "positions = [(0, 0), (600, 0), (0, 600), (600, 600), (0, 1200), (600, 1200)]"
    by (simp add: positions_def)
  show ?thesis
    by (rule exI [of _ ?c]) (intro conjI r sz pl tiles rest)
qed

theorem sheet_without_border_witness:
  "width (dotted 600 600) = 600 \<and> height (dotted 600 600) = 600
   \<and> (\<exists>canvas. create_4x6_image (\<lambda>im sz. im) (dotted 600 600) False 5 = Inr canvas
         \<and> width canvas = 1200 \<and> height canvas = 1800
         \<and> pix canvas 607 1209 = black \<and> pix canvas 608 1209 = white)"
proof -
  have s: "width (dotted 600 600) = 600" "height (dotted 600 600) = 600"
    by (simp_all add: dotted_def)
  from sheet_without_border [OF s, of "\<lambda>im sz. im" 5]
  obtain canvas where c: "create_4x6_image (\<lambda>im sz. im) (dotted 600 600) False 5 = Inr canvas"
    "width canvas = 1200" "height canvas = 1800"
    and t: "\<forall>pos \<in> set positions. \<forall>u v. 0 \<le> u \<and> u < 600 \<and> 0 \<le> v \<and> v < 600 \<longrightarrow>
                 pix canvas (fst pos + u) (snd pos + v) = pix (dotted 600 600) u v"
    by blast
  have m: "(600, 1200) \<in> set positions" by (simp add: positions_def)
  from t [rule_format, OF m, of 7 9] t [rule_format, OF m, of 8 9]
  have "pix canvas 607 1209 = black" "pix canvas 608 1209 = white"
    by (simp_all add: dotted_def)
  with s c show ?thesis by blast
qed

lemma add_border_frame_nonneg:
  assumes "0 \<le> t"
  shows "add_border_frame tile t = Inr (paste (blank (600 + 2 * t) (600 + 2 * t) black) tile (t, t))"
  using assms by (simp add: add_border_frame_def Image_new_def)

lemma create_4x6_image_bordered:
  assumes "width tile = 600" and "height tile = 600" and "0 \<le> t"
  shows "create_4x6_image resample tile True t
           = Inr (fold (\<lambda>pos canvas. paste canvas
                     (paste (blank (600 + 2 * t) (600 + 2 * t) black) tile (t, t)) pos)
                   positions (blank 1200 1800 white))"
  using assms by (simp add: create_4x6_image_def pil_resize_def Let_def add_border_frame_nonneg)

lemma bordered_size:
  "width (paste (blank (600 + 2 * t) (600 + 2 * t) black) tile (t, t)) = 600 + 2 * t"
  "height (paste (blank (600 + 2 * t) (600 + 2 * t) black) tile (t, t)) = 600 + 2 * t"
  by (simp_all add: paste_def blank_def)

lemma bordered_pix:
  assumes "width tile = 600" and "height tile = 600"
  shows "pix (paste (blank (600 + 2 * t) (600 + 2 * t) black) tile (t, t)) x y
           = (if t \<le> x \<and> x < t + 600 \<and> t \<le> y \<and> y < t + 600
              then pix tile (x - t) (y - t) else black)"
  using assms by (simp add: pix_paste blank_def)

text \<open>
  C5, as stated, fails in its last part: with a border of 5 pixels the inflated tile is 610
  pixels wide, the tiles are pasted 600 pixels apart, and the paste boxes of two adjacent tiles
  share 10 pixel columns, not 5.
\<close>

theorem border_overlap_counterexample:
  "add_border_frame (dotted 600 600) 5 = Inr (paste (blank 610 610 black) (dotted 600 600) (5, 5))
   \<and> overlap_x (paste_box (paste (blank 610 610 black) (dotted 600 600) (5, 5)) (0, 0))
                (paste_box (paste (blank 610 610 black) (dotted 600 600) (5, 5)) (600, 0)) = 10
   \<and> overlap_y (paste_box (paste (blank 610 610 black) (dotted 600 600) (5, 5)) (0, 0))
                (paste_box (paste (blank 610 610 black) (dotted 600 600) (5, 5)) (0, 600)) = 10"
  by (simp add: add_border_frame_def Image_new_def overlap_x_def overlap_y_def paste_box_def
      paste_def blank_def)

text \<open>
  C5, amended: for every 600 x 600 tile and every border thickness \<open>t \<ge> 0\<close>, the tile is
  inflated onto a \<open>(600 + 2t) x (600 + 2t)\<close> black canvas with the tile at offset \<open>(t, t)\<close>, the
  inflated tile is pasted at the same six positions as without a border, and the paste boxes of
  adjacent tiles overlap by \<open>2t\<close> pixels: every 600 x 600 cell of the sheet shows a black border
  of \<open>t\<close> pixels at its top and left and the photo without its last \<open>t\<close> columns and rows.
\<close>

theorem sheet_with_border:
  assumes "width tile = 600" and "height tile = 600" and "0 \<le> t"
  shows "\<exists>bordered canvas.
           add_border_frame tile t = Inr bordered
           \<and> width bordered = 600 + 2 * t \<and> height bordered = 600 + 2 * t
           \<and> (\<forall>x y. pix bordered x y = (if t \<le> x \<and> x < t + 600 \<and> t \<le> y \<and> y < t + 600
                                         then pix tile (x - t) (y - t) else black))
           \<and> create_4x6_image resample tile True t = Inr canvas
           \<and> canvas = fold (\<lambda>pos canvas. paste canvas bordered pos) positions (blank 1200 1800 white)
           \<and> width canvas = 1200 \<and> height canvas = 1800
           \<and> overlap_x (paste_box bordered (0, 0)) (paste_box bordered (600, 0)) = 2 * t
           \<and> overlap_y (paste_box bordered (0, 0)) (paste_box bordered (0, 600)) = 2 * t
           \<and> (\<forall>x y. 0 \<le> x \<and> x < 1200 \<and> 0 \<le> y \<and> y < 1800 \<longrightarrow>
                 pix canvas x y = (if x mod 600 < t \<or> y mod 600 < t then black
                                   else pix tile (x mod 600 - t) (y mod 600 - t)))"
proof -
  let ?b = "paste (blank (600 + 2 * t) (600 + 2 * t) black) tile (t, t)"
  let ?c = "fold (\<lambda>pos canvas. paste canvas ?b pos) positions (blank 1200 1800 white)"
  have b: "add_border_frame tile t = Inr ?b" using assms(3) by (rule add_border_frame_nonneg)
  have bs: "width ?b = 600 + 2 * t" "height ?b = 600 + 2 * t" by (rule bordered_size)+
  have bp: "\<forall>x y. pix ?b x y = (if t \<le> x \<and> x < t + 600 \<and> t \<le> y \<and> y < t + 600
                                 then pix tile (x - t) (y - t) else black)"
    using bordered_pix [OF assms(1,2)] by blast
  have c: "create_4x6_image resample tile True t = Inr ?c"
    using assms by (rule create_4x6_image_bordered)
  have cs: "width ?c = 1200" "height ?c = 1800" by (simp_all add: sheet_size blank_def)
  have ox: "overlap_x (paste_box ?b (0, 0)) (paste_box ?b (600, 0)) = 2 * t"
    using assms(3) by (simp add: overlap_x_def paste_box_def bs)
  have oy: "overlap_y (paste_box ?b (0, 0)) (paste_box ?b (0, 600)) = 2 * t"
    using assms(3) by (simp add: overlap_y_def paste_box_def bs)
  have cp: "\<forall>x y. 0 \<le> x \<and> x < 1200 \<and> 0 \<le> y \<and> y < 1800 \<longrightarrow>
                 pix ?c x y = (if x mod 600 < t \<or> y mod 600 < t then black
                               else pix tile (x mod 600 - t) (y mod 600 - t))"
  proof (intro allI impI)
    fix x y :: int
    assume h: "0 \<le> x \<and> x < 1200 \<and> 0 \<le> y \<and> y < 1800"
    have w: "600 \<le> width ?b" "600 \<le> height ?b" using assms(3) by (simp_all add: bs)
    have "pix ?c x y = pix ?b (x mod 600) (y mod 600)"
      using w h by (intro sheet_pix) simp_all
    also have "\<dots> = (if x mod 600 < t \<or> y mod 600 < t then black
                       else pix tile (x mod 600 - t) (y mod 600 - t))"
      using cell_of(5,6) [of x 2] cell_of(5,6) [of y 3] h assms(3)
      by (simp add: bordered_pix [OF assms(1,2)]) linarith
    finally show "pix ?c x y = (if x mod 600 < t \<or> y mod 600 < t then black
                                else pix tile (x mod 600 - t) (y mod 600 - t))" .
  qed
  show ?thesis
    by (rule exI [of _ ?b], rule exI [of _ ?c]) (intro conjI b bs bp c refl cs ox oy cp)
qed

theorem sheet_with_border_witness:
  "width (dotted 600 600) = 600 \<and> height (dotted 600 600) = 600 \<and> (0::int) \<le> 5
   \<and> (\<exists>canvas. create_4x6_image (\<lambda>im sz. im) (dotted 600 600) True 5 = Inr canvas
         \<and> pix canvas 604 300 = black \<and> pix canvas 612 14 = black \<and> pix canvas 613 14 = white)"
proof -
  have s: "width (dotted 600 600) = 600" "height (dotted 600 600) = 600" "(0::int) \<le> 5"
    by (simp_all add: dotted_def)
  from sheet_with_border [OF s, of "\<lambda>im sz. im"]
  obtain canvas where c: "create_4x6_image (\<lambda>im sz. im) (dotted 600 600) True 5 = Inr canvas"
    and p: "\<forall>x y. 0 \<le> x \<and> x < 1200 \<and> 0 \<le> y \<and> y < 1800 \<longrightarrow>
                 pix canvas x y = (if x mod 600 < 5 \<or> y mod 600 < 5 then black
                                   else pix (dotted 600 600) (x mod 600 - 5) (y mod 600 - 5))"
    by blast
  from p [rule_format, of 604 300] p [rule_format, of 612 14] p [rule_format, of 613 14]
  have "pix canvas 604 300 = black" "pix canvas 612 14 = black" "pix canvas 613 14 = white"
    by (simp_all add: dotted_def)
  with s c show ?thesis by blast
qed

section \<open>Measurement overlay\<close>

lemma draw_on_other: "r \<noteq> img \<Longrightarrow> objs (draw_on h img f) r = objs h r"
  by (simp add: draw_on_def)

lemma draw_on_next_ref: "next_ref (draw_on h img f) = next_ref h"
  by (simp add: draw_on_def)

lemma add_measurement_overlay_frame:
  "(\<forall>r. r \<noteq> img \<longrightarrow>
      objs (fst (add_measurement_overlay draw_line draw_text fmt1 h img landmarks img_h img_w)) r
        = objs h r)
   \<and> next_ref (fst (add_measurement_overlay draw_line draw_text fmt1 h img landmarks img_h img_w))
        = next_ref h
   \<and> (snd (add_measurement_overlay draw_line draw_text fmt1 h img landmarks img_h img_w) = Inr img
      \<or> snd (add_measurement_overlay draw_line draw_text fmt1 h img landmarks img_h img_w)
          = Inl IndexError)"
  by (simp add: add_measurement_overlay_def lm_at_def Let_def draw_on_other draw_on_next_ref)

lemma pil_copy_frame:
  "r < next_ref h \<Longrightarrow> objs (fst (pil_copy h p)) r = objs h r"
  "snd (pil_copy h p) = next_ref h"
  "next_ref (fst (pil_copy h p)) = Suc (next_ref h)"
  "objs (fst (pil_copy h p)) (next_ref h) = objs h p"
  by (simp_all add: pil_copy_def)

lemma render_preview_frame:
  assumes "r < next_ref h"
  shows "objs (fst (render_preview detect draw_line draw_text fmt1 h processed_img)) r = objs h r"
proof -
  obtain h1 p where c: "pil_copy h processed_img = (h1, p)" by (cases "pil_copy h processed_img")
  have p: "p = next_ref h" and h1: "objs h1 r = objs h r"
    using pil_copy_frame(1) [of r h processed_img] pil_copy_frame(2) [of h processed_img] assms c
    by simp_all
  have ne: "r \<noteq> p" using assms p by simp
  show ?thesis
  proof (cases "detect (objs h processed_img)")
    case None
    then show ?thesis by (simp add: render_preview_def Let_def c h1)
  next
    case (Some lms)
    show ?thesis
    proof (cases "lms = []")
      case True
      then show ?thesis using Some by (simp add: render_preview_def Let_def c h1)
    next
      case False
      have "objs (fst (add_measurement_overlay draw_line draw_text fmt1 h1 p lms
                    (height (objs h processed_img)) (width (objs h processed_img)))) r = objs h1 r"
        using add_measurement_overlay_frame [of p draw_line draw_text fmt1 h1 lms] ne by blast
      then show ?thesis using Some False by (simp add: render_preview_def Let_def c h1)
    qed
  qed
qed

lemma overlay_sample_rows:
  "py_int (fmul_int (fl (1 / 10)) 600) = 60"
  "py_int (fmul_int (fl (9 / 10)) 600) = 540"
  "py_int (fmul_int (fl (3 / 10)) 600) = 180"
  by code_simp+

lemma overlay_sample_run:
  "snd (add_measurement_overlay sample_line sample_text sample_fmt h r synthetic_landmarks 600 600)
     = Inr r"
  "width (objs h r) = 600 \<Longrightarrow> height (objs h r) = 600 \<Longrightarrow>
   pix (objs (fst (add_measurement_overlay sample_line sample_text sample_fmt h r
                     synthetic_landmarks 600 600)) r) 300 60 = red"
  by (simp_all add: add_measurement_overlay_def lm_at_def synthetic_landmarks_nth
      overlay_sample_rows Let_def draw_on_def sample_line_def sample_text_def)

text \<open>
  C6, as stated, fails in its first part: \<open>add_measurement_overlay\<close> makes no copy.  Called on
  the white 600 x 600 image at reference 0 it returns reference 0, and the image at reference 0
  has a red pixel on the head-top line afterwards.
\<close>

theorem overlay_mutates_argument_counterexample:
  "snd (add_measurement_overlay sample_line sample_text sample_fmt sample_heap 0
          synthetic_landmarks 600 600) = Inr 0
   \<and> pix (objs sample_heap 0) 300 60 = white
   \<and> pix (objs (fst (add_measurement_overlay sample_line sample_text sample_fmt sample_heap 0
                        synthetic_landmarks 600 600)) 0) 300 60 = red
   \<and> white \<noteq> red"
proof -
  have d: "width (objs sample_heap 0) = 600" "height (objs sample_heap 0) = 600"
    by (simp_all add: sample_heap_def blank_def)
  have w: "pix (objs sample_heap 0) 300 60 = white" by (simp add: sample_heap_def blank_def)
  have ne: "white \<noteq> red" by (simp add: white_def red_def)
  show ?thesis using overlay_sample_run(1) overlay_sample_run(2) [OF d] w ne by simp
qed

text \<open>
  C6, amended: \<open>add_measurement_overlay\<close> draws in place on the image it is given and returns
  that same image; it changes no other image and allocates none.  The copy is made by the
  caller: rendering the preview leaves the processed image, and every other image that existed
  before, unmodified.
\<close>

theorem overlay_drawn_on_callers_copy:
  "(\<forall>r. r < next_ref h \<longrightarrow>
      objs (fst (render_preview detect draw_line draw_text fmt1 h processed_img)) r = objs h r)
   \<and> (\<forall>r. r \<noteq> img \<longrightarrow>
      objs (fst (add_measurement_overlay draw_line draw_text fmt1 h img landmarks img_h img_w)) r
        = objs h r)
   \<and> next_ref (fst (add_measurement_overlay draw_line draw_text fmt1 h img landmarks img_h img_w))
        = next_ref h
   \<and> (snd (add_measurement_overlay draw_line draw_text fmt1 h img landmarks img_h img_w) = Inr img
      \<or> snd (add_measurement_overlay draw_line draw_text fmt1 h img landmarks img_h img_w)
          = Inl IndexError)"
  using render_preview_frame [of _ h detect draw_line draw_text fmt1 processed_img]
    add_measurement_overlay_frame [of img draw_line draw_text fmt1 h landmarks img_h img_w]
  by blast

lemma preview_sample_run:
  "snd (render_preview (\<lambda>im. Some synthetic_landmarks) sample_line sample_text sample_fmt
          sample_heap 0) = Inr 1"
  "pix (objs (fst (render_preview (\<lambda>im. Some synthetic_landmarks) sample_line sample_text
                     sample_fmt sample_heap 0)) 1) 300 60 = red"
proof -
  have ne: "synthetic_landmarks \<noteq> []" using synthetic_landmarks_nth(1) by auto
  have c: "pil_copy sample_heap 0
             = (sample_heap\<lparr>objs := (objs sample_heap)(1 := objs sample_heap 0), next_ref := 2\<rparr>, 1)"
    by (simp add: pil_copy_def sample_heap_def)
  have d: "width (objs sample_heap 0) = 600" "height (objs sample_heap 0) = 600"
    by (simp_all add: sample_heap_def blank_def)
  show "snd (render_preview (\<lambda>im. Some synthetic_landmarks) sample_line sample_text sample_fmt
          sample_heap 0) = Inr 1"
    by (simp add: render_preview_def Let_def c ne d overlay_sample_run)
  show "pix (objs (fst (render_preview (\<lambda>im. Some synthetic_landmarks) sample_line sample_text
                     sample_fmt sample_heap 0)) 1) 300 60 = red"
    by (simp add: render_preview_def Let_def c ne d overlay_sample_run)
qed

theorem overlay_drawn_on_callers_copy_witness:
  "0 < next_ref sample_heap
   \<and> objs (fst (render_preview (\<lambda>im. Some synthetic_landmarks) sample_line sample_text sample_fmt
                  sample_heap 0)) 0 = objs sample_heap 0
   \<and> snd (render_preview (\<lambda>im. Some synthetic_landmarks) sample_line sample_text sample_fmt
            sample_heap 0) = Inr 1
   \<and> pix (objs (fst (render_preview (\<lambda>im. Some synthetic_landmarks) sample_line sample_text
                       sample_fmt sample_heap 0)) 1) 300 60 = red
   \<and> pix (objs sample_heap 0) 300 60 = white"
proof -
  have n: "0 < next_ref sample_heap" by (simp add: sample_heap_def)
  from overlay_drawn_on_callers_copy
         [of sample_heap "\<lambda>im. Some synthetic_landmarks" sample_line sample_text sample_fmt 0]
  have "\<forall>r. r < next_ref sample_heap \<longrightarrow>
      objs (fst (render_preview (\<lambda>im. Some synthetic_landmarks) sample_line sample_text sample_fmt
                   sample_heap 0)) r = objs sample_heap r"
    by blast
  with n have "objs (fst (render_preview (\<lambda>im. Some synthetic_landmarks) sample_line sample_text
                  sample_fmt sample_heap 0)) 0 = objs sample_heap 0"
    by blast
  moreover have "pix (objs sample_heap 0) 300 60 = white"
    by (simp add: sample_heap_def blank_def)
  ultimately show ?thesis using n preview_sample_run by simp
qed

section \<open>Soft warning checks\<close>

lemma bottom_rows_600:
  assumes "width g = 600" and "height g = 600"
  shows "np_rows_from g (- 80) = \<lparr>width = 600, height = 80, pix = (\<lambda>x y. pix g x (y + 520))\<rparr>"
  using assms by (simp add: np_rows_from_def np_crop_def np_slice_def np_index_def)

lemma warnings_distinct: "ATTIRE_WARNING \<noteq> CONTRAST_WARNING"
  by (simp add: ATTIRE_WARNING_def CONTRAST_WARNING_def)

lemma check_warnings_unfold:
  "check_warnings cvtColor np_mean np_std h pil_img =
     (h, (if 220 < np_mean (np_rows_from (cvtColor (objs h pil_img)) (- 80))
          then [ATTIRE_WARNING] else [])
         @ (if 60 < np_std (cvtColor (objs h pil_img)) then [CONTRAST_WARNING] else []))"
  by (simp add: check_warnings_def Let_def)

text \<open>
  C10: for every 600 x 600 RGB image (whose grayscale conversion is 600 x 600 too),
  \<open>check_warnings\<close> leaves the images unchanged and returns at most two warnings, each one of
  the two fixed strings: the attire warning exactly when the mean of the bottom 80 rows of the
  grayscale image (rows 520 to 599) exceeds 220, the contrast warning exactly when the standard
  deviation of the grayscale image exceeds 60, the attire warning first.
\<close>

theorem check_warnings_contract:
  assumes "width (objs h pil_img) = 600" and "height (objs h pil_img) = 600"
    and "width (cvtColor (objs h pil_img)) = width (objs h pil_img)"
    and "height (cvtColor (objs h pil_img)) = height (objs h pil_img)"
    and "gray = cvtColor (objs h pil_img)"
    and "bottom = \<lparr>width = 600, height = 80, pix = (\<lambda>x y. pix gray x (y + 520))\<rparr>"
    and "ws = snd (check_warnings cvtColor np_mean np_std h pil_img)"
  shows "fst (check_warnings cvtColor np_mean np_std h pil_img) = h
       \<and> ws = (if 220 < np_mean bottom then [ATTIRE_WARNING] else [])
              @ (if 60 < np_std gray then [CONTRAST_WARNING] else [])
       \<and> length ws \<le> 2
       \<and> set ws \<subseteq> {ATTIRE_WARNING, CONTRAST_WARNING}
       \<and> (ATTIRE_WARNING \<in> set ws) = (220 < np_mean bottom)
       \<and> (CONTRAST_WARNING \<in> set ws) = (60 < np_std gray)"
proof -
  have g: "width gray = 600" "height gray = 600" using assms(1-5) by simp_all
  have b: "np_rows_from gray (- 80) = bottom"
    using bottom_rows_600 [OF g] by (simp add: assms(6))
  have ws: "ws = (if 220 < np_mean bottom then [ATTIRE_WARNING] else [])
              @ (if 60 < np_std gray then [CONTRAST_WARNING] else [])"
    using b by (simp add: assms(7) check_warnings_unfold assms(5) [symmetric])
  have h: "fst (check_warnings cvtColor np_mean np_std h pil_img) = h"
    by (simp add: check_warnings_unfold)
  show ?thesis
    using warnings_distinct by (simp add: h ws [symmetric]) (auto simp: ws)
qed

theorem check_warnings_contract_witness:
  "width (objs sample_heap 0) = 600 \<and> height (objs sample_heap 0) = 600
   \<and> width (sample_gray (objs sample_heap 0)) = width (objs sample_heap 0)
   \<and> height (sample_gray (objs sample_heap 0)) = height (objs sample_heap 0)
   \<and> check_warnings sample_gray sample_mean sample_std sample_heap 0
       = (sample_heap, [ATTIRE_WARNING])"
proof -
  have s: "width (objs sample_heap 0) = 600" "height (objs sample_heap 0) = 600"
    "width (sample_gray (objs sample_heap 0)) = width (objs sample_heap 0)"
    "height (sample_gray (objs sample_heap 0)) = height (objs sample_heap 0)"
    by (simp_all add: sample_heap_def blank_def sample_gray_def)
  have m: "220 < sample_mean \<lparr>width = 600, height = 80,
                   pix = (\<lambda>x y. pix (sample_gray (objs sample_heap 0)) x (y + 520))\<rparr>"
    by (simp add: sample_mean_def sample_gray_def sample_heap_def blank_def white_def)
  have d: "\<not> 60 < sample_std (sample_gray (objs sample_heap 0))"
    by (simp add: sample_std_def)
  from check_warnings_contract
         [where h = sample_heap and pil_img = 0 and cvtColor = sample_gray
            and np_mean = sample_mean and np_std = sample_std, OF s refl refl refl] m d
  have "fst (check_warnings sample_gray sample_mean sample_std sample_heap 0) = sample_heap"
    "snd (check_warnings sample_gray sample_mean sample_std sample_heap 0) = [ATTIRE_WARNING]"
    by simp_all
  then have "check_warnings sample_gray sample_mean sample_std sample_heap 0
       = (sample_heap, [ATTIRE_WARNING])"
    by (simp add: prod_eq_iff)
  with s show ?thesis by simp
qed

end
